theory Spec2Isabelle
  imports Complex_Main "HOL-Library.AList" "HOL-Library.Sublist" "HOL-Library.Word"
begin

unbundle bit_operations_syntax

section \<open>Python values, strings and dictionaries\<close>

text \<open>
  The values that flow through \<^verbatim>\<open>globus_sdk/utils/token_storage.py\<close> and
  \<^verbatim>\<open>globus_sdk/auth/oauth2_native_app_shortcut.py\<close>: \<^verbatim>\<open>None\<close>, booleans, integers,
  strings, tuples or lists, and dictionaries with string keys. A string is a list of
  characters; a character stands for one code point below 256.
\<close>

datatype pyval =
    PNone
  | PBool bool
  | PInt int
  | PStr string
  | PList "pyval list"
  | PDict "(string \<times> pyval) list"

text \<open>Python's truth value of an object (\<^verbatim>\<open>if v\<close>, \<^verbatim>\<open>not v\<close>, \<^verbatim>\<open>a or b\<close>).\<close>

fun truthy :: "pyval \<Rightarrow> bool" where
  "truthy PNone = False"
| "truthy (PBool b) = b"
| "truthy (PInt n) = (n \<noteq> 0)"
| "truthy (PStr s) = (s \<noteq> [])"
| "truthy (PList xs) = (xs \<noteq> [])"
| "truthy (PDict d) = (d \<noteq> [])"

text \<open>\<^verbatim>\<open>v is True\<close> and \<^verbatim>\<open>v is False\<close>: identity with the two boolean singletons.\<close>

definition is_True :: "pyval \<Rightarrow> bool" where
  "is_True v = (v = PBool True)"

definition is_False :: "pyval \<Rightarrow> bool" where
  "is_False v = (v = PBool False)"

text \<open>
  A Python \<^verbatim>\<open>dict\<close> is an association list in insertion order with distinct keys.
  \<^verbatim>\<open>d[k] = v\<close> is \<^const>\<open>AList.update\<close> (the value is replaced in place, a new key is
  appended), \<^verbatim>\<open>d.get(k)\<close> gives \<^verbatim>\<open>None\<close> for a missing key.
\<close>

type_synonym ('k, 'v) pydict = "('k \<times> 'v) list"

definition dict_get :: "('k, pyval) pydict \<Rightarrow> 'k \<Rightarrow> pyval" where
  "dict_get d k = (case map_of d k of None \<Rightarrow> PNone | Some v \<Rightarrow> v)"

definition dict_values :: "('k, 'v) pydict \<Rightarrow> 'v list" where
  "dict_values d = map snd d"

definition dict_keys :: "('k, 'v) pydict \<Rightarrow> 'k list" where
  "dict_keys d = map fst d"


subsection \<open>Strings\<close>

text \<open>\<^verbatim>\<open>str.isspace\<close> on the code points below 256.\<close>

definition py_isspace :: "char \<Rightarrow> bool" where
  "py_isspace c = ((of_char c :: nat) \<in> {9, 10, 11, 12, 13, 28, 29, 30, 31, 32, 133, 160})"

text \<open>\<^verbatim>\<open>s.split()\<close>: the maximal runs of non-whitespace characters.\<close>

fun split_ws :: "string \<Rightarrow> string \<Rightarrow> string list" where
  "split_ws cur [] = (if cur = [] then [] else [cur])"
| "split_ws cur (c # cs) =
     (if py_isspace c then (if cur = [] then split_ws [] cs else cur # split_ws [] cs)
      else split_ws (cur @ [c]) cs)"

definition py_split :: "string \<Rightarrow> string list" where
  "py_split s = split_ws [] s"

text \<open>\<^verbatim>\<open>s.split(",")\<close>: the pieces between the separators; an empty string gives one empty piece.\<close>

fun split_on :: "char \<Rightarrow> string \<Rightarrow> string \<Rightarrow> string list" where
  "split_on sep cur [] = [cur]"
| "split_on sep cur (c # cs) =
     (if c = sep then cur # split_on sep [] cs else split_on sep (cur @ [c]) cs)"

definition py_split_comma :: "string \<Rightarrow> string list" where
  "py_split_comma s = split_on CHR '','' [] s"

text \<open>\<^verbatim>\<open>",".join(xs)\<close>.\<close>

fun py_join_comma :: "string list \<Rightarrow> string" where
  "py_join_comma [] = []"
| "py_join_comma [x] = x"
| "py_join_comma (x # y # ys) = x @ '','' @ py_join_comma (y # ys)"

text \<open>\<^verbatim>\<open>s.replace(".", "_")\<close>.\<close>

definition replace_dot :: "string \<Rightarrow> string" where
  "replace_dot s = map (\<lambda>c. if c = CHR ''.'' then CHR ''_'' else c) s"

text \<open>\<^verbatim>\<open>str(n)\<close> for an integer: the decimal digits, with a minus sign when negative.\<close>

definition digit_char :: "nat \<Rightarrow> char" where
  "digit_char d = char_of (48 + d)"

function str_nat :: "nat \<Rightarrow> string" where
  "str_nat n = (if n < 10 then [digit_char n] else str_nat (n div 10) @ [digit_char (n mod 10)])"
  by pat_completeness auto
termination
  by (relation "measure id") auto

declare str_nat.simps [simp del]

definition py_str_int :: "int \<Rightarrow> string" where
  "py_str_int i = (if i < 0 then CHR ''-'' # str_nat (nat (- i)) else str_nat (nat i))"

text \<open>
  \<^verbatim>\<open>int(s)\<close> for a string: surrounding whitespace is stripped, one sign is allowed, then
  decimal digits, where single underscores may stand between digits. Anything else is a
  \<^verbatim>\<open>ValueError\<close>, here \<^const>\<open>None\<close>.
\<close>

definition is_digit :: "char \<Rightarrow> bool" where
  "is_digit c = (48 \<le> (of_char c :: nat) \<and> (of_char c :: nat) \<le> 57)"

definition digit_val :: "char \<Rightarrow> nat" where
  "digit_val c = of_char c - 48"

fun parse_digits :: "nat \<Rightarrow> string \<Rightarrow> nat option" where
  "parse_digits acc [] = Some acc"
| "parse_digits acc (c # cs) =
     (if is_digit c then parse_digits (10 * acc + digit_val c) cs
      else if c = CHR ''_'' then
        (case cs of
           [] \<Rightarrow> None
         | d # ds \<Rightarrow> if is_digit d then parse_digits (10 * acc + digit_val d) ds else None)
      else None)"

definition parse_nat :: "string \<Rightarrow> nat option" where
  "parse_nat s =
     (case s of
        [] \<Rightarrow> None
      | c # cs \<Rightarrow> if is_digit c then parse_digits (digit_val c) cs else None)"

definition py_strip :: "string \<Rightarrow> string" where
  "py_strip s = rev (dropWhile py_isspace (rev (dropWhile py_isspace s)))"

definition py_int :: "string \<Rightarrow> int option" where
  "py_int s =
     (case py_strip s of
        [] \<Rightarrow> None
      | c # cs \<Rightarrow>
          if c = CHR ''-'' then map_option (\<lambda>n. - int n) (parse_nat cs)
          else if c = CHR ''+'' then map_option int (parse_nat cs)
          else map_option int (parse_nat (c # cs)))"

section \<open>Errors\<close>

text \<open>
  The exceptions that the modelled code raises or lets through. The module
  \<^verbatim>\<open>globus_sdk.exc\<close> is imported by the sources and its classes are used as follows:
  \<^verbatim>\<open>native_auth\<close> catches \<^verbatim>\<open>ConfigError\<close> around \<^verbatim>\<open>load_tokens\<close> and the unit tests expect
  an expired or scope-mismatched store to start a new flow, and \<^verbatim>\<open>clear_tokens\<close> lists
  \<^verbatim>\<open>except LoadedTokensExpired\<close> before \<^verbatim>\<open>except ConfigError\<close>; so both
  \<^verbatim>\<open>LoadedTokensExpired\<close> and \<^verbatim>\<open>RequestedScopesMismatch\<close> are kinds of \<^verbatim>\<open>ConfigError\<close>.
\<close>

datatype error =
    ConfigError
  | LoadedTokensExpired
  | RequestedScopesMismatch
  | ValueError
  | TypeError
  | KeyError
  | AttributeError
  | NoSectionError
  | FileNotFoundError
  | OSError
  | AuthAPIError
  | NetworkError
  | LocalServerError

definition is_ConfigError :: "error \<Rightarrow> bool" where
  "is_ConfigError e = (e = ConfigError \<or> e = LoadedTokensExpired \<or> e = RequestedScopesMismatch)"

section \<open>The configuration parser (\<^verbatim>\<open>globus_sdk/config.py\<close>)\<close>

text \<open>
  \<^verbatim>\<open>GlobusConfigParser\<close> keeps a parser in memory (\<^verbatim>\<open>self._parser\<close>) and rewrites the file
  at \<^verbatim>\<open>self._write_path\<close> on every \<^verbatim>\<open>set\<close> and \<^verbatim>\<open>remove\<close>. The standard library's
  \<^verbatim>\<open>ConfigParser\<close> is taken as a plain store of sections, each a map from option names to
  string values: option names are kept as written, values are returned as stored, and a
  file holds exactly what was written to it.
\<close>

type_synonym cfgdata = "string \<rightharpoonup> (string \<rightharpoonup> string)"

record config =
  parser :: cfgdata
  write_file :: "cfgdata option"

text \<open>\<^verbatim>\<open>get_section\<close>: the section as a dictionary, or \<^verbatim>\<open>None\<close> when there is none.\<close>

definition get_section :: "config \<Rightarrow> pyval \<Rightarrow> (string \<rightharpoonup> string) option" where
  "get_section c section = (case section of PStr s \<Rightarrow> parser c s | _ \<Rightarrow> None)"

text \<open>\<^verbatim>\<open>_get_write_config\<close>: the file's content, or a lone empty \<^verbatim>\<open>general\<close> section.\<close>

definition get_write_config :: "config \<Rightarrow> cfgdata" where
  "get_write_config c =
     (case write_file c of None \<Rightarrow> [''general'' \<mapsto> Map.empty] | Some d \<Rightarrow> d)"

definition set_option :: "cfgdata \<Rightarrow> string \<Rightarrow> string \<Rightarrow> string \<Rightarrow> cfgdata" where
  "set_option d s k v = d(s \<mapsto> (case d s of None \<Rightarrow> [k \<mapsto> v] | Some m \<Rightarrow> m(k \<mapsto> v)))"

definition remove_option :: "cfgdata \<Rightarrow> string \<Rightarrow> string \<Rightarrow> cfgdata" where
  "remove_option d s k = (case d s of None \<Rightarrow> d | Some m \<Rightarrow> d(s \<mapsto> m(k := None)))"

text \<open>
  \<^verbatim>\<open>set(option, value, section)\<close>: the section is added where absent, the option is set in
  the file and then in the parser. A section name or a value that is not a string is
  refused by \<^verbatim>\<open>ConfigParser\<close> with a \<^verbatim>\<open>TypeError\<close>, before anything is written.
\<close>

definition config_set :: "config \<Rightarrow> string \<Rightarrow> pyval \<Rightarrow> pyval \<Rightarrow> (error + unit) \<times> config" where
  "config_set c option value section =
     (case section of
        PStr s \<Rightarrow>
          (case value of
             PStr v \<Rightarrow>
               (Inr (),
                \<lparr>parser = set_option (parser c) s option v,
                 write_file = Some (set_option (get_write_config c) s option v)\<rparr>)
           | _ \<Rightarrow> (Inl TypeError, c))
      | _ \<Rightarrow> (Inl TypeError, c))"

text \<open>
  \<^verbatim>\<open>remove(option, section)\<close>: the option is removed from the file's section
  (\<^verbatim>\<open>NoSectionError\<close> when the file has no such section), the file is saved, then the option
  is removed from the parser's section (\<^verbatim>\<open>NoSectionError\<close> again when it is missing there).
  The result says whether the file had the option.
\<close>

definition config_remove :: "config \<Rightarrow> string \<Rightarrow> pyval \<Rightarrow> (error + bool) \<times> config" where
  "config_remove c option section =
     (case section of
        PStr s \<Rightarrow>
          (case get_write_config c s of
             None \<Rightarrow> (Inl NoSectionError, c)
           | Some m \<Rightarrow>
               (let c1 = c\<lparr>write_file := Some (remove_option (get_write_config c) s option)\<rparr>
                in case parser c s of
                     None \<Rightarrow> (Inl NoSectionError, c1)
                   | Some _ \<Rightarrow>
                       (Inr (m option \<noteq> None),
                        c1\<lparr>parser := remove_option (parser c) s option\<rparr>)))
      | _ \<Rightarrow> (Inl NoSectionError, c))"

section \<open>Token storage (\<^verbatim>\<open>globus_sdk/utils/token_storage.py\<close>)\<close>

definition TOKEN_KEYS :: "string list" where
  "TOKEN_KEYS =
     [''scope'', ''access_token'', ''refresh_token'', ''token_type'',
      ''expires_at_seconds'', ''resource_server'']"

definition REQUIRED_KEYS :: "string list" where
  "REQUIRED_KEYS = [''scope'', ''access_token'', ''expires_at_seconds'', ''resource_server'']"

definition CONFIG_TOKEN_GROUPS :: string where
  "CONFIG_TOKEN_GROUPS = ''token_groups''"

text \<open>One record of tokens, and the records by resource server.\<close>

type_synonym token_set = "(string, pyval) pydict"
type_synonym tokens = "(pyval, token_set) pydict"

subsection \<open>Serialization\<close>

text \<open>\<^verbatim>\<open>_serialize_token(resource_server, token="")\<close> and \<^verbatim>\<open>_deserialize_token\<close>.\<close>

definition serialize_token :: "string \<Rightarrow> string \<Rightarrow> string" where
  "serialize_token resource_server token = replace_dot resource_server @ ''_'' @ token"

definition deserialize_token :: "string \<Rightarrow> string \<Rightarrow> string" where
  "deserialize_token grouping token = grouping @ token"

text \<open>
  The value written for a field: an \<^verbatim>\<open>int\<close> instance (a boolean is one) becomes its
  \<^verbatim>\<open>str\<close>, \<^verbatim>\<open>None\<close> becomes the empty string, anything else is left as it is.
\<close>

fun serialize_value :: "pyval \<Rightarrow> pyval" where
  "serialize_value (PInt n) = PStr (py_str_int n)"
| "serialize_value (PBool b) = PStr (if b then ''True'' else ''False'')"
| "serialize_value PNone = PStr []"
| "serialize_value v = v"

text \<open>The inner loop over \<^verbatim>\<open>token_set.items()\<close>.\<close>

definition serialize_items ::
  "string \<Rightarrow> token_set \<Rightarrow> (string, pyval) pydict \<Rightarrow> (string, pyval) pydict" where
  "serialize_items rs token_set serialized_items =
     foldl (\<lambda>acc (key, value). AList.update (serialize_token rs key) (serialize_value value) acc)
       serialized_items token_set"

text \<open>
  The outer loop over \<^verbatim>\<open>tokens.values()\<close>. \<^verbatim>\<open>token_set["resource_server"]\<close> is a
  \<^verbatim>\<open>KeyError\<close> when the record has no such key, and \<^verbatim>\<open>.replace\<close> an \<^verbatim>\<open>AttributeError\<close>
  when the value is not a string.
\<close>

fun serialize_loop ::
  "token_set list \<Rightarrow> (string, pyval) pydict \<Rightarrow> string list \<Rightarrow>
   error + ((string, pyval) pydict \<times> string list)" where
  "serialize_loop [] serialized_items token_groups = Inr (serialized_items, token_groups)"
| "serialize_loop (token_set # rest) serialized_items token_groups =
     (case map_of token_set ''resource_server'' of
        None \<Rightarrow> Inl KeyError
      | Some (PStr rs) \<Rightarrow>
          serialize_loop rest (serialize_items rs token_set serialized_items)
            (token_groups @ [serialize_token rs []])
      | Some _ \<Rightarrow> Inl AttributeError)"

definition serialize_token_groups :: "tokens \<Rightarrow> error + (string, pyval) pydict" where
  "serialize_token_groups tokens =
     (case serialize_loop (dict_values tokens) [] [] of
        Inl e \<Rightarrow> Inl e
      | Inr (serialized_items, token_groups) \<Rightarrow>
          Inr (AList.update CONFIG_TOKEN_GROUPS (PStr (py_join_comma token_groups))
                 serialized_items))"

subsection \<open>Deserialization\<close>

text \<open>\<^verbatim>\<open>config_items.get(k)\<close> on a section: the stored string or \<^verbatim>\<open>None\<close>.\<close>

definition items_get :: "(string \<rightharpoonup> string) \<Rightarrow> string \<Rightarrow> pyval" where
  "items_get config_items k = (case config_items k of None \<Rightarrow> PNone | Some v \<Rightarrow> PStr v)"

text \<open>\<^verbatim>\<open>int(v)\<close>: a \<^verbatim>\<open>TypeError\<close> for \<^verbatim>\<open>None\<close>, a \<^verbatim>\<open>ValueError\<close> for a string that is no number.\<close>

fun py_int_of :: "pyval \<Rightarrow> error + pyval" where
  "py_int_of (PStr s) = (case py_int s of None \<Rightarrow> Inl ValueError | Some n \<Rightarrow> Inr (PInt n))"
| "py_int_of (PInt n) = Inr (PInt n)"
| "py_int_of (PBool b) = Inr (PInt (if b then 1 else 0))"
| "py_int_of v = Inl TypeError"

text \<open>The body of the loop over the groups: one record read from the section.\<close>

definition deserialize_group :: "(string \<rightharpoonup> string) \<Rightarrow> string \<Rightarrow> error + token_set" where
  "deserialize_group config_items grp =
     (let tset = map (\<lambda>k. (k, items_get config_items (deserialize_token grp k))) TOKEN_KEYS
      in case py_int_of (dict_get tset ''expires_at_seconds'') of
           Inl e \<Rightarrow> Inl e
         | Inr n \<Rightarrow>
             Inr (map (\<lambda>(k, v). (k, if truthy v then v else PNone))
                    (AList.update ''expires_at_seconds'' n tset)))"

fun deserialize_loop :: "(string \<rightharpoonup> string) \<Rightarrow> string list \<Rightarrow> tokens \<Rightarrow> error + tokens" where
  "deserialize_loop config_items [] token_groups = Inr token_groups"
| "deserialize_loop config_items (grp # rest) token_groups =
     (case deserialize_group config_items grp of
        Inl e \<Rightarrow> Inl e
      | Inr tset \<Rightarrow>
          deserialize_loop config_items rest
            (AList.update (dict_get tset ''resource_server'') tset token_groups))"

text \<open>
  \<^verbatim>\<open>_deserialize_token_groups(config_items)\<close>; \<^verbatim>\<open>config_items\<close> is \<^verbatim>\<open>None\<close> when the section
  does not exist, and \<^verbatim>\<open>.get\<close> and \<^verbatim>\<open>.split\<close> on \<^verbatim>\<open>None\<close> are an \<^verbatim>\<open>AttributeError\<close>.
\<close>

definition deserialize_token_groups :: "(string \<rightharpoonup> string) option \<Rightarrow> error + tokens" where
  "deserialize_token_groups config_items =
     (case config_items of
        None \<Rightarrow> Inl AttributeError
      | Some ci \<Rightarrow>
          (case ci CONFIG_TOKEN_GROUPS of
             None \<Rightarrow> Inl AttributeError
           | Some tsets \<Rightarrow> deserialize_loop ci (py_split_comma tsets) []))"

subsection \<open>Saving and loading\<close>

text \<open>The loop of \<^verbatim>\<open>save_tokens\<close>: one \<^verbatim>\<open>config.set\<close> per serialized item, until one raises.\<close>

fun set_all :: "config \<Rightarrow> pyval \<Rightarrow> (string, pyval) pydict \<Rightarrow> (error + unit) \<times> config" where
  "set_all c section [] = (Inr (), c)"
| "set_all c section ((key, value) # rest) =
     (case config_set c key value section of
        (Inl e, c') \<Rightarrow> (Inl e, c')
      | (Inr _, c') \<Rightarrow> set_all c' section rest)"

definition save_tokens :: "config \<Rightarrow> tokens \<Rightarrow> pyval \<Rightarrow> (error + unit) \<times> config" where
  "save_tokens c tokens config_section =
     (case serialize_token_groups tokens of
        Inl e \<Rightarrow> (Inl e, c)
      | Inr cfg_tokens \<Rightarrow> set_all c config_section cfg_tokens)"

text \<open>\<^verbatim>\<open>any(xs)\<close> on a list of strings: some element is a non-empty string.\<close>

definition py_any_str :: "string list \<Rightarrow> bool" where
  "py_any_str xs = list_ex (\<lambda>x. x \<noteq> []) xs"

text \<open>\<^verbatim>\<open>[mk for mk in REQUIRED_KEYS if not tok_set.get(mk)]\<close>.\<close>

definition missing_keys :: "token_set \<Rightarrow> string list" where
  "missing_keys tok_set = filter (\<lambda>mk. \<not> truthy (dict_get tok_set mk)) REQUIRED_KEYS"

text \<open>A list comprehension whose body may raise: the first error ends it.\<close>

fun collect :: "('a \<Rightarrow> error + 'b) \<Rightarrow> 'a list \<Rightarrow> error + 'b list" where
  "collect f [] = Inr []"
| "collect f (x # xs) =
     (case f x of
        Inl e \<Rightarrow> Inl e
      | Inr y \<Rightarrow> (case collect f xs of Inl e \<Rightarrow> Inl e | Inr ys \<Rightarrow> Inr (y # ys)))"

text \<open>\<^verbatim>\<open>t["scope"].split()\<close>.\<close>

definition scope_list :: "token_set \<Rightarrow> error + string list" where
  "scope_list t =
     (case map_of t ''scope'' of
        None \<Rightarrow> Inl KeyError
      | Some (PStr s) \<Rightarrow> Inr (py_split s)
      | Some _ \<Rightarrow> Inl AttributeError)"

text \<open>
  \<^verbatim>\<open>set(v)\<close>: the elements of a sequence, the characters of a string, the keys of a
  dictionary; a \<^verbatim>\<open>TypeError\<close> for a value that cannot be iterated or an element that
  cannot be hashed (a nested sequence is taken to be a list).
\<close>

fun hashable :: "pyval \<Rightarrow> bool" where
  "hashable (PList xs) = False"
| "hashable (PDict d) = False"
| "hashable v = True"

fun py_set :: "pyval \<Rightarrow> error + pyval list" where
  "py_set (PStr s) = Inr (map (\<lambda>c. PStr [c]) s)"
| "py_set (PList xs) = (if list_all hashable xs then Inr xs else Inl TypeError)"
| "py_set (PDict d) = Inr (map (\<lambda>kv. PStr (fst kv)) d)"
| "py_set v = Inl TypeError"

text \<open>The scope check of \<^verbatim>\<open>load_tokens\<close>; \<^const>\<open>None\<close> when it passes or is skipped.\<close>

definition scope_check :: "pyval \<Rightarrow> tokens \<Rightarrow> error option" where
  "scope_check requested_scopes loaded_tokens =
     (if truthy requested_scopes then
        (case collect scope_list (dict_values loaded_tokens) of
           Inl e \<Rightarrow> Some e
         | Inr scope_lists \<Rightarrow>
             (case py_set requested_scopes of
                Inl e \<Rightarrow> Some e
              | Inr requested \<Rightarrow>
                  if list_ex (\<lambda>s. PStr s \<notin> set requested) (concat scope_lists)
                  then Some RequestedScopesMismatch else None))
      else None)"

text \<open>
  \<^verbatim>\<open>time.time() >= t["expires_at_seconds"]\<close>; the clock readings of one call are taken as
  one instant \<open>now\<close>.
\<close>

definition is_expired :: "real \<Rightarrow> token_set \<Rightarrow> error + bool" where
  "is_expired now t =
     (case map_of t ''expires_at_seconds'' of
        None \<Rightarrow> Inl KeyError
      | Some (PInt n) \<Rightarrow> Inr (now \<ge> of_int n)
      | Some (PBool b) \<Rightarrow> Inr (now \<ge> (if b then 1 else 0))
      | Some _ \<Rightarrow> Inl TypeError)"

definition expiry_check :: "pyval \<Rightarrow> real \<Rightarrow> tokens \<Rightarrow> error option" where
  "expiry_check check_expired now loaded_tokens =
     (if is_True check_expired then
        (case collect (is_expired now) (dict_values loaded_tokens) of
           Inl e \<Rightarrow> Some e
         | Inr expired \<Rightarrow> if list_ex id expired then Some LoadedTokensExpired else None)
      else None)"

text \<open>
  \<^verbatim>\<open>load_tokens(config_section, requested_scopes, check_expired)\<close>. Every exception while
  reading and deserializing the section becomes a \<^verbatim>\<open>ConfigError\<close>.
\<close>

definition load_tokens :: "config \<Rightarrow> pyval \<Rightarrow> pyval \<Rightarrow> pyval \<Rightarrow> real \<Rightarrow> error + tokens" where
  "load_tokens c config_section requested_scopes check_expired now =
     (case deserialize_token_groups (get_section c config_section) of
        Inl e \<Rightarrow> Inl ConfigError
      | Inr loaded_tokens \<Rightarrow>
          if list_ex (\<lambda>tok_set. py_any_str (missing_keys tok_set)) (dict_values loaded_tokens)
          then Inl ConfigError
          else
            (case scope_check requested_scopes loaded_tokens of
               Some e \<Rightarrow> Inl e
             | None \<Rightarrow>
                 (case expiry_check check_expired now loaded_tokens of
                    Some e \<Rightarrow> Inl e
                  | None \<Rightarrow> Inr loaded_tokens)))"

section \<open>The outside world\<close>

text \<open>
  What the code does to its collaborators is recorded as a trace of events, in order; what
  the collaborators answer is given by a record of oracles. The collaborators are the auth
  client (\<^verbatim>\<open>NativeAppAuthClient\<close>), the local server, the browser, the console and the host.
\<close>

datatype event =
    LoadTokens pyval pyval pyval
  | ClearTokens pyval pyval
  | SaveTokens tokens pyval
  | NativeAppAuthClient pyval
  | Oauth2RevokeToken pyval
  | Oauth2StartFlow pyval pyval pyval pyval
  | Oauth2GetAuthorizeUrl pyval
  | StartLocalServer pyval pyval
  | StopLocalServer
  | WebbrowserOpen string
  | SafePrint string
  | WaitForCode
  | ReadInput
  | Oauth2ExchangeCodeForTokens string

record world =
  revoke_token :: "pyval \<Rightarrow> error option"
  authorize_url :: "pyval \<Rightarrow> string"
  is_remote_session :: bool
  wait_for_code :: "error + string"
  input_line :: string
  exchange_code :: "string \<Rightarrow> error + tokens"
  home_config_filename :: string
  DEFAULT_REQUESTED_SCOPES :: pyval
  hostname :: string

subsection \<open>Clearing\<close>

text \<open>
  The loop of the \<^verbatim>\<open>try\<close> block of \<^verbatim>\<open>clear_tokens\<close>: each record's access token is
  revoked, until a call raises.
\<close>

fun revoke_all :: "world \<Rightarrow> token_set list \<Rightarrow> error option \<times> event list" where
  "revoke_all w [] = (None, [])"
| "revoke_all w (tok_set # rest) =
     (case map_of tok_set ''resource_server'' of
        None \<Rightarrow> (Some KeyError, [])
      | Some _ \<Rightarrow>
          (case map_of tok_set ''access_token'' of
             None \<Rightarrow> (Some KeyError, [])
           | Some tok \<Rightarrow>
               (case revoke_token w tok of
                  Some e \<Rightarrow> (Some e, [Oauth2RevokeToken tok])
                | None \<Rightarrow>
                    (case revoke_all w rest of (r, evs) \<Rightarrow> (r, Oauth2RevokeToken tok # evs)))))"

text \<open>The loop of \<^verbatim>\<open>config.remove\<close> calls, until one raises.\<close>

fun remove_all :: "config \<Rightarrow> pyval \<Rightarrow> string list \<Rightarrow> (error + unit) \<times> config" where
  "remove_all c section [] = (Inr (), c)"
| "remove_all c section (name # rest) =
     (case config_remove c name section of
        (Inl e, c') \<Rightarrow> (Inl e, c')
      | (Inr _, c') \<Rightarrow> remove_all c' section rest)"

text \<open>The part of \<^verbatim>\<open>clear_tokens\<close> after the \<^verbatim>\<open>try\<close> statement.\<close>

definition delete_tokens :: "config \<Rightarrow> pyval \<Rightarrow> tokens \<Rightarrow> (error + bool) \<times> config" where
  "delete_tokens c config_section tokens =
     (if tokens = [] then (Inr False, c)
      else
        (case serialize_token_groups tokens of
           Inl e \<Rightarrow> (Inl e, c)
         | Inr cfg_tsets \<Rightarrow>
             (case remove_all c config_section (dict_keys cfg_tsets @ [CONFIG_TOKEN_GROUPS]) of
                (Inl e, c') \<Rightarrow> (Inl e, c')
              | (Inr _, c') \<Rightarrow> (Inr True, c'))))"

text \<open>
  \<^verbatim>\<open>clear_tokens(config_section, client_id)\<close>. The \<^verbatim>\<open>try\<close> block catches
  \<^verbatim>\<open>LoadedTokensExpired\<close> (the tokens are loaded again without the expiry check) and
  \<^verbatim>\<open>ConfigError\<close> (logged); any other exception leaves the function.
\<close>

definition clear_tokens ::
  "world \<Rightarrow> config \<Rightarrow> pyval \<Rightarrow> pyval \<Rightarrow> real \<Rightarrow> (error + bool) \<times> config \<times> event list" where
  "clear_tokens w c config_section client_id now =
     (case load_tokens c config_section (PList []) (PBool True) now of
        Inl e \<Rightarrow>
          if e = LoadedTokensExpired then
            (case load_tokens c config_section (PList []) (PBool False) now of
               Inl e' \<Rightarrow> (Inl e', c, [NativeAppAuthClient client_id])
             | Inr tokens \<Rightarrow>
                 (case delete_tokens c config_section tokens of
                    (r, c') \<Rightarrow> (r, c', [NativeAppAuthClient client_id])))
          else if is_ConfigError e then (Inr False, c, [NativeAppAuthClient client_id])
          else (Inl e, c, [NativeAppAuthClient client_id])
      | Inr tokens \<Rightarrow>
          (case revoke_all w (dict_values tokens) of
             (None, evs) \<Rightarrow>
               (case delete_tokens c config_section tokens of
                  (r, c') \<Rightarrow> (r, c', NativeAppAuthClient client_id # evs))
           | (Some e, evs) \<Rightarrow>
               if e = LoadedTokensExpired then
                 (case load_tokens c config_section (PList []) (PBool False) now of
                    Inl e' \<Rightarrow> (Inl e', c, NativeAppAuthClient client_id # evs)
                  | Inr tokens' \<Rightarrow>
                      (case delete_tokens c config_section tokens' of
                         (r, c') \<Rightarrow> (r, c', NativeAppAuthClient client_id # evs)))
               else if is_ConfigError e then
                 (case delete_tokens c config_section tokens of
                    (r, c') \<Rightarrow> (r, c', NativeAppAuthClient client_id # evs))
               else (Inl e, c, NativeAppAuthClient client_id # evs)))"

section \<open>The login shortcut (\<^verbatim>\<open>globus_sdk/auth/oauth2_native_app_shortcut.py\<close>)\<close>

definition AUTH_CODE_REDIRECT :: string where
  "AUTH_CODE_REDIRECT = ''https://auth.globus.org/v2/web/auth-code''"

text \<open>
  The table of defaults. Three entries are computed when the module is imported and are
  taken from the world: the expanded path of the configuration file, the constant
  \<^verbatim>\<open>DEFAULT_REQUESTED_SCOPES\<close> of \<^verbatim>\<open>globus_sdk.auth.oauth2_constants\<close>, and the host name.
\<close>

definition NATIVE_AUTH_DEFAULTS :: "world \<Rightarrow> (string, pyval) pydict" where
  "NATIVE_AUTH_DEFAULTS w =
     [(''config_filename'', PStr (home_config_filename w)),
      (''config_section'', PNone),
      (''client_id'', PStr ''0af96eea-fec8-4d6e-aad2-c87feed8151c''),
      (''requested_scopes'', DEFAULT_REQUESTED_SCOPES w),
      (''refresh_tokens'', PBool False),
      (''prefill_named_grant'', PStr (hostname w)),
      (''additional_auth_params'', PDict []),
      (''save_tokens'', PBool False),
      (''check_tokens_expired'', PBool True),
      (''force_login'', PBool False),
      (''no_local_server'', PBool False),
      (''no_browser'', PBool False),
      (''server_hostname'', PStr ''127.0.0.1''),
      (''server_port'', PInt 8890),
      (''redirect_uri'', PStr ''http://localhost:8890/'')]"

text \<open>\<^verbatim>\<open>_prompt_login(url, no_browser)\<close>.\<close>

definition prompt_login :: "world \<Rightarrow> string \<Rightarrow> pyval \<Rightarrow> event list" where
  "prompt_login w url no_browser =
     (if is_False no_browser \<and> \<not> is_remote_session w then [WebbrowserOpen url]
      else [SafePrint (''Please paste the following URL in a browser: '' @ [char_of (10 :: nat)] @ url)])"

text \<open>
  The options of one call: every default, overridden by the keyword argument of the same
  name, and then the redirect target replaced when the user is to paste the code.
\<close>

definition resolve_opts :: "world \<Rightarrow> (string, pyval) pydict \<Rightarrow> (string, pyval) pydict" where
  "resolve_opts w kwargs =
     (let opts = map (\<lambda>(k, v). (k, case map_of kwargs k of None \<Rightarrow> v | Some x \<Rightarrow> x))
                   (NATIVE_AUTH_DEFAULTS w)
      in if is_True (dict_get opts ''no_local_server'') \<and>
            dict_get opts ''redirect_uri'' = dict_get (NATIVE_AUTH_DEFAULTS w) ''redirect_uri''
         then AList.update ''redirect_uri'' (PStr AUTH_CODE_REDIRECT) opts
         else opts)"

text \<open>\<^verbatim>\<open>opts["config_section"] or opts["client_id"]\<close>.\<close>

definition config_section_of :: "(string, pyval) pydict \<Rightarrow> pyval" where
  "config_section_of opts =
     (if truthy (dict_get opts ''config_section'') then dict_get opts ''config_section''
      else dict_get opts ''client_id'')"

text \<open>
  The part of \<^verbatim>\<open>native_auth\<close> after the attempt to load: the stored tokens are cleared,
  the flow is started, the code is obtained from the local server or from the console,
  exchanged for tokens, and the tokens are saved when asked for.
\<close>

definition login_flow ::
  "world \<Rightarrow> config \<Rightarrow> (string, pyval) pydict \<Rightarrow> pyval \<Rightarrow> real \<Rightarrow>
   (error + tokens) \<times> config \<times> event list" where
  "login_flow w c opts config_section now =
     (case clear_tokens w c config_section (dict_get opts ''client_id'') now of
        (Inl e, c1, evs) \<Rightarrow> (Inl e, c1, ClearTokens config_section (dict_get opts ''client_id'') # evs)
      | (Inr _, c1, evs) \<Rightarrow>
          (let url = authorize_url w (dict_get opts ''additional_auth_params'');
               evs1 = ClearTokens config_section (dict_get opts ''client_id'') # evs @
                 [NativeAppAuthClient (dict_get opts ''client_id''),
                  Oauth2StartFlow (dict_get opts ''requested_scopes'') (dict_get opts ''redirect_uri'')
                    (dict_get opts ''refresh_tokens'') (dict_get opts ''prefill_named_grant''),
                  Oauth2GetAuthorizeUrl (dict_get opts ''additional_auth_params'')];
               evs2 =
                 (if is_False (dict_get opts ''no_local_server'') then
                    [StartLocalServer (dict_get opts ''server_hostname'') (dict_get opts ''server_port'')]
                    @ prompt_login w url (dict_get opts ''no_browser'') @ [WaitForCode, StopLocalServer]
                  else
                    prompt_login w url (dict_get opts ''no_browser'')
                    @ [SafePrint ''Enter the resulting Authorization Code here: '', ReadInput]);
               code =
                 (if is_False (dict_get opts ''no_local_server'') then wait_for_code w
                  else Inr (input_line w))
           in case code of
                Inl e \<Rightarrow> (Inl e, c1, evs1 @ evs2)
              | Inr auth_code \<Rightarrow>
                  (case exchange_code w auth_code of
                     Inl e \<Rightarrow> (Inl e, c1, evs1 @ evs2 @ [Oauth2ExchangeCodeForTokens auth_code])
                   | Inr tokens_by_resource_server \<Rightarrow>
                       if is_True (dict_get opts ''save_tokens'') then
                         (case save_tokens c1 tokens_by_resource_server config_section of
                            (Inl e, c2) \<Rightarrow>
                              (Inl e, c2,
                               evs1 @ evs2 @ [Oauth2ExchangeCodeForTokens auth_code,
                                 SaveTokens tokens_by_resource_server config_section])
                          | (Inr _, c2) \<Rightarrow>
                              (Inr tokens_by_resource_server, c2,
                               evs1 @ evs2 @ [Oauth2ExchangeCodeForTokens auth_code,
                                 SaveTokens tokens_by_resource_server config_section]))
                       else
                         (Inr tokens_by_resource_server, c1,
                          evs1 @ evs2 @ [Oauth2ExchangeCodeForTokens auth_code]))))"

text \<open>
  \<^verbatim>\<open>[k for k in kwargs.keys() if k not in NATIVE_AUTH_DEFAULTS.keys()]\<close>.
\<close>

definition unaccepted :: "world \<Rightarrow> (string, pyval) pydict \<Rightarrow> string list" where
  "unaccepted w kwargs =
     filter (\<lambda>k. k \<notin> set (dict_keys (NATIVE_AUTH_DEFAULTS w))) (dict_keys kwargs)"

text \<open>
  \<^verbatim>\<open>native_auth(**kwargs)\<close>. The result is what the call returns or raises, the
  configuration after it, and the trace of what it did. \<open>now_load\<close> and \<open>now_clear\<close> are
  the clock readings inside \<^verbatim>\<open>load_tokens\<close> and inside \<^verbatim>\<open>clear_tokens\<close>.
\<close>

definition native_auth ::
  "world \<Rightarrow> config \<Rightarrow> (string, pyval) pydict \<Rightarrow> real \<Rightarrow> real \<Rightarrow>
   (error + tokens) \<times> config \<times> event list" where
  "native_auth w c kwargs now_load now_clear =
     (if py_any_str (unaccepted w kwargs) then (Inl ValueError, c, [])
      else
           (let opts = resolve_opts w kwargs;
                config_section = config_section_of opts;
                ev = LoadTokens config_section (dict_get opts ''requested_scopes'')
                       (dict_get opts ''check_tokens_expired'')
            in if is_False (dict_get opts ''force_login'') then
                 (case load_tokens c config_section (dict_get opts ''requested_scopes'')
                         (dict_get opts ''check_tokens_expired'') now_load of
                    Inr tokens \<Rightarrow> (Inr tokens, c, [ev])
                  | Inl e \<Rightarrow>
                      if is_ConfigError e then
                        (case login_flow w c opts config_section now_clear of
                           (r, c', evs) \<Rightarrow> (r, c', ev # evs))
                      else (Inl e, c, [ev]))
               else login_flow w c opts config_section now_clear))"

section \<open>The JSON file adapter (\<^verbatim>\<open>globus_sdk/tokenstorage/file_adapters.py\<close>)\<close>

text \<open>
  The file at \<^verbatim>\<open>self.filename\<close>: what \<^verbatim>\<open>json.load\<close> finds in it, and its permission bits.
  A parsed document is a Python value. \<^const>\<open>None\<close> stands for a file that does not exist.
\<close>

datatype file_content = NotJson | Json pyval

record json_file =
  content :: file_content
  mode :: "32 word"

definition format_version :: string where
  "format_version = ''1.0''"

definition supported_versions :: "string list" where
  "supported_versions = [''1.0'']"

text \<open>\<^verbatim>\<open>_raw_load\<close>: the content as a dictionary, or an error.\<close>

definition raw_load :: "json_file option \<Rightarrow> error + (string, pyval) pydict" where
  "raw_load f =
     (case f of
        None \<Rightarrow> Inl FileNotFoundError
      | Some fl \<Rightarrow>
          (case content fl of
             NotJson \<Rightarrow> Inl ValueError
           | Json (PDict d) \<Rightarrow> Inr d
           | Json _ \<Rightarrow> Inl ValueError))"

text \<open>\<^verbatim>\<open>_handle_formats\<close>.\<close>

definition is_dict :: "pyval \<Rightarrow> bool" where
  "is_dict v = (case v of PDict d \<Rightarrow> True | _ \<Rightarrow> False)"

definition handle_formats :: "(string, pyval) pydict \<Rightarrow> error + (string, pyval) pydict" where
  "handle_formats read_data =
     (if dict_get read_data ''format_version'' \<notin> set (map PStr supported_versions)
      then Inl ValueError
      else if \<not> is_dict (dict_get read_data ''by_rs'') then Inl ValueError
      else Inr read_data)"

text \<open>
  \<^verbatim>\<open>_load\<close>; \<open>version\<close> is \<^verbatim>\<open>globus_sdk.version.__version__\<close>. Only \<^verbatim>\<open>FileNotFoundError\<close>
  is caught.
\<close>

definition adapter_load :: "string \<Rightarrow> json_file option \<Rightarrow> error + (string, pyval) pydict" where
  "adapter_load version f =
     (case raw_load f of
        Inl e \<Rightarrow>
          if e = FileNotFoundError then
            Inr [(''by_rs'', PDict []), (''format_version'', PStr format_version),
                 (''globus-sdk.version'', PStr version)]
          else Inl e
      | Inr data \<Rightarrow> handle_formats data)"





text \<open>\<^verbatim>\<open>get_by_resource_server\<close>: the \<^verbatim>\<open>by_rs\<close> entry of what \<^verbatim>\<open>_load\<close> returns.\<close>

definition get_by_resource_server :: "string \<Rightarrow> json_file option \<Rightarrow> error + pyval" where
  "get_by_resource_server version f =
     (case adapter_load version f of
        Inl e \<Rightarrow> Inl e
      | Inr d \<Rightarrow> (case map_of d ''by_rs'' of None \<Rightarrow> Inl KeyError | Some v \<Rightarrow> Inr v))"

section \<open>Well-formed credential sets\<close>

text \<open>
  The shape of a record that the token storage is written for: exactly the six keys of
  \<^const>\<open>TOKEN_KEYS\<close>; scope, access token and resource server non-empty strings; the
  expiry a non-zero integer; refresh token and token type a non-empty string or
  \<^verbatim>\<open>None\<close>; no comma in the name of the resource server.
\<close>

definition nonempty_str :: "pyval \<Rightarrow> bool" where
  "nonempty_str v = (case v of PStr s \<Rightarrow> s \<noteq> [] | _ \<Rightarrow> False)"

definition optional_str :: "pyval \<Rightarrow> bool" where
  "optional_str v = (case v of PNone \<Rightarrow> True | PStr s \<Rightarrow> s \<noteq> [] | _ \<Rightarrow> False)"

definition nonzero_int :: "pyval \<Rightarrow> bool" where
  "nonzero_int v = (case v of PInt n \<Rightarrow> n \<noteq> 0 | _ \<Rightarrow> False)"

text \<open>The resource server that a record names.\<close>

definition rs_of :: "token_set \<Rightarrow> string" where
  "rs_of t = (case dict_get t ''resource_server'' of PStr r \<Rightarrow> r | _ \<Rightarrow> [])"

definition wf_token_set :: "token_set \<Rightarrow> bool" where
  "wf_token_set t =
     (distinct (map fst t) \<and> set (map fst t) = set TOKEN_KEYS \<and>
      nonempty_str (dict_get t ''scope'') \<and>
      nonempty_str (dict_get t ''access_token'') \<and>
      optional_str (dict_get t ''refresh_token'') \<and>
      optional_str (dict_get t ''token_type'') \<and>
      nonzero_int (dict_get t ''expires_at_seconds'') \<and>
      nonempty_str (dict_get t ''resource_server'') \<and>
      CHR '','' \<notin> set (rs_of t))"

text \<open>
  A credential set: not empty, every record well formed and stored under its own
  resource server, and no two records with the same sanitized resource server.
\<close>

definition wf_tokens :: "tokens \<Rightarrow> bool" where
  "wf_tokens T =
     (T \<noteq> [] \<and> list_all (\<lambda>(k, t). wf_token_set t \<and> k = PStr (rs_of t)) T \<and>
      distinct (map (\<lambda>(k, t). replace_dot (rs_of t)) T))"

text \<open>
  What \<^verbatim>\<open>load_tokens\<close> builds from a record: the six fields in the order of
  \<^const>\<open>TOKEN_KEYS\<close>.
\<close>

definition reorder :: "token_set \<Rightarrow> token_set" where
  "reorder t = map (\<lambda>k. (k, dict_get t k)) TOKEN_KEYS"

text \<open>
  The last record of a list that shares the sanitized resource server of \<open>t\<close>, and the
  dictionary that is loaded once a list of well-formed records has been saved.
\<close>

definition last_with :: "token_set list \<Rightarrow> token_set \<Rightarrow> token_set" where
  "last_with ts t = last (filter (\<lambda>t'. replace_dot (rs_of t') = replace_dot (rs_of t)) ts)"

definition loaded_of :: "token_set list \<Rightarrow> tokens" where
  "loaded_of ts =
     foldl (\<lambda>acc t. AList.update (PStr (rs_of (last_with ts t))) (reorder (last_with ts t)) acc)
       [] ts"

text \<open>Auxiliary readings of a value and of the parser.\<close>

definition is_str :: "pyval \<Rightarrow> bool" where
  "is_str v = (case v of PStr s \<Rightarrow> True | _ \<Rightarrow> False)"

definition the_str :: "pyval \<Rightarrow> string" where
  "the_str v = (case v of PStr s \<Rightarrow> s | _ \<Rightarrow> [])"

definition section_of :: "config \<Rightarrow> string \<Rightarrow> (string \<rightharpoonup> string)" where
  "section_of c s = (case parser c s of None \<Rightarrow> Map.empty | Some m \<Rightarrow> m)"


section \<open>Sample data\<close>

text \<open>A parser that has read nothing, with no file written yet.\<close>

definition empty_config :: config where
  "empty_config = \<lparr>parser = Map.empty, write_file = None\<rparr>"

text \<open>The tokens of the unit tests (\<^verbatim>\<open>MOCK_TOKENS\<close>), with shortened token strings.\<close>

definition mock_tokens :: tokens where
  "mock_tokens =
     [(PStr ''auth.globus.org'',
       [(''scope'', PStr ''profile openid email''),
        (''access_token'', PStr ''9d0e6f2a21917cc3''),
        (''refresh_token'', PNone),
        (''token_type'', PStr ''Bearer''),
        (''expires_at_seconds'', PInt 1539984535),
        (''resource_server'', PStr ''auth.globus.org'')]),
      (PStr ''workhorse.org'',
       [(''scope'', PStr ''all''),
        (''access_token'', PStr ''QmFkIEhvcnNl''),
        (''refresh_token'', PStr ''VGhlIGV2aWwg''),
        (''token_type'', PStr ''Bearer''),
        (''expires_at_seconds'', PInt 1539984535),
        (''resource_server'', PStr ''workhorse.org'')])]"


section \<open>What a section holds\<close>


text \<open>
  The section holds the credential set \<open>toks\<close>: it deserializes to \<open>toks\<close> and no record lacks a required field. This is what \<^verbatim>\<open>load_tokens\<close> has in hand when it reaches the scope check.
\<close>

definition stored :: "config \<Rightarrow> pyval \<Rightarrow> tokens \<Rightarrow> bool" where
  "stored c section toks =
     (deserialize_token_groups (get_section c section) = Inr toks \<and>
      list_all (\<lambda>t. missing_keys t = []) (dict_values toks))"

text \<open>
  The scope string and the expiry of a loaded record, and the union of the scopes of all records.
\<close>

definition scope_str :: "token_set \<Rightarrow> string" where
  "scope_str t = (case dict_get t ''scope'' of PStr s \<Rightarrow> s | _ \<Rightarrow> [])"

definition loaded_scopes :: "tokens \<Rightarrow> string set" where
  "loaded_scopes toks = (\<Union>t\<in>set (dict_values toks). set (py_split (scope_str t)))"

definition expires_at :: "token_set \<Rightarrow> int" where
  "expires_at t = (case dict_get t ''expires_at_seconds'' of PInt n \<Rightarrow> n | _ \<Rightarrow> 0)"

text \<open>
  The shape of a record that the deserialization loop builds: the scope is a string or \<^verbatim>\<open>None\<close>, the expiry an integer or \<^verbatim>\<open>None\<close>.
\<close>

definition group_shape :: "token_set \<Rightarrow> bool" where
  "group_shape t =
     ((case map_of t ''scope'' of Some PNone \<Rightarrow> True | Some (PStr s) \<Rightarrow> True | _ \<Rightarrow> False) \<and>
      (case map_of t ''expires_at_seconds'' of Some PNone \<Rightarrow> True | Some (PInt n) \<Rightarrow> True
       | _ \<Rightarrow> False))"

text \<open>
  One record with the two scopes A and B, and the configurations that hold it and the tokens of the unit tests in the section \<^verbatim>\<open>test\<close>.
\<close>

definition scoped_tokens :: tokens where
  "scoped_tokens =
     [(PStr ''x.org'',
       [(''scope'', PStr ''A B''),
        (''access_token'', PStr ''tok''),
        (''refresh_token'', PNone),
        (''token_type'', PStr ''Bearer''),
        (''expires_at_seconds'', PInt 1539984535),
        (''resource_server'', PStr ''x.org'')])]"

definition scoped_config :: config where
  "scoped_config = snd (save_tokens empty_config scoped_tokens (PStr ''test''))"

definition mock_config :: config where
  "mock_config = snd (save_tokens empty_config mock_tokens (PStr ''test''))"

section \<open>Sample calls of the login shortcut\<close>

text \<open>
  A world in which every collaborator answers: the revocation and the exchange succeed, the session is local, and the code that comes back is \<^verbatim>\<open>code\<close>. The default scopes are those of \<^verbatim>\<open>globus_sdk.auth.oauth2_constants\<close>.
\<close>

definition test_world :: world where
  "test_world =
     \<lparr>revoke_token = (\<lambda>tok. None),
      authorize_url = (\<lambda>params. ''https://auth.globus.org/v2/oauth2/authorize''),
      is_remote_session = False,
      wait_for_code = Inr ''code'',
      input_line = ''code'',
      exchange_code = (\<lambda>code. Inr mock_tokens),
      home_config_filename = ''/home/user/.globus-native-apps.cfg'',
      DEFAULT_REQUESTED_SCOPES =
        PList [PStr ''openid'', PStr ''profile'', PStr ''email'',
               PStr ''urn:globus:auth:scope:transfer.api.globus.org:all''],
      hostname = ''localhost''\<rparr>"

text \<open>
  Keyword arguments of three calls: a forced login without the local server, the same with a redirect target of the caller's own, and a call that names a section and the scopes A and B.
\<close>

definition paste_kwargs :: "(string, pyval) pydict" where
  "paste_kwargs = [(''no_local_server'', PBool True), (''force_login'', PBool True)]"

definition own_redirect_kwargs :: "(string, pyval) pydict" where
  "own_redirect_kwargs =
     [(''no_local_server'', PBool True), (''redirect_uri'', PStr ''https://example.org/code'')]"

definition stored_kwargs :: "(string, pyval) pydict" where
  "stored_kwargs =
     [(''config_section'', PStr ''test''), (''requested_scopes'', PList [PStr ''A'', PStr ''B''])]"

section \<open>The file while it is stored\<close>







text \<open>
  Three files that \<^verbatim>\<open>_load\<close> refuses: an unknown format version, no \<^verbatim>\<open>by_rs\<close> entry, and a \<^verbatim>\<open>by_rs\<close> entry that is a list.
\<close>

definition unknown_version_file :: json_file where
  "unknown_version_file =
     \<lparr>content = Json (PDict [(''by_rs'', PDict []), (''format_version'', PStr ''2.0'')]),
      mode = 384\<rparr>"

definition no_by_rs_file :: json_file where
  "no_by_rs_file = \<lparr>content = Json (PDict [(''format_version'', PStr ''1.0'')]), mode = 384\<rparr>"

definition list_by_rs_file :: json_file where
  "list_by_rs_file =
     \<lparr>content = Json (PDict [(''by_rs'', PList []), (''format_version'', PStr ''1.0'')]),
      mode = 384\<rparr>"

section \<open>Strings: numbers, splitting and joining\<close>

lemma is_digit_digit_char: "d < 10 \<Longrightarrow> is_digit (digit_char d)"
  by (simp add: is_digit_def digit_char_def)

lemma digit_val_digit_char: "d < 10 \<Longrightarrow> digit_val (digit_char d) = d"
  by (simp add: digit_val_def digit_char_def)

lemma str_nat_digits: "list_all is_digit (str_nat n)"
proof (induction n rule: str_nat.induct)
  case (1 n)
  show ?case
  proof (cases "n < 10")
    case True
    then show ?thesis by (subst str_nat.simps) (simp add: is_digit_digit_char)
  next
    case False
    with 1 show ?thesis by (subst str_nat.simps) (simp add: is_digit_digit_char)
  qed
qed

lemma str_nat_nonempty: "str_nat n \<noteq> []"
  by (subst str_nat.simps) simp

lemma parse_digits_all: "list_all is_digit ds \<Longrightarrow>
  parse_digits acc ds = Some (foldl (\<lambda>a c. 10 * a + digit_val c) acc ds)"
  by (induction ds arbitrary: acc) auto

lemma foldl_str_nat: "foldl (\<lambda>a c. 10 * a + digit_val c) 0 (str_nat n) = n"
proof (induction n rule: str_nat.induct)
  case (1 n)
  show ?case
  proof (cases "n < 10")
    case True
    then show ?thesis by (subst str_nat.simps) (simp add: digit_val_digit_char)
  next
    case False
    with 1 show ?thesis by (subst str_nat.simps) (simp add: digit_val_digit_char)
  qed
qed

lemma parse_nat_str_nat: "parse_nat (str_nat n) = Some n"
proof -
  obtain c cs where eq: "str_nat n = c # cs"
    using str_nat_nonempty [of n] by (cases "str_nat n") auto
  have all: "list_all is_digit (c # cs)" using str_nat_digits [of n] eq by simp
  have "parse_digits 0 (c # cs) = Some n"
    using parse_digits_all [OF all, of 0] foldl_str_nat [of n] eq by simp
  then show ?thesis using all by (simp add: parse_nat_def eq)
qed

lemma is_digit_not_space: "is_digit c \<Longrightarrow> \<not> py_isspace c"
  by (auto simp: is_digit_def py_isspace_def)

lemma is_digit_not_sign: "is_digit c \<Longrightarrow> c \<noteq> CHR ''-'' \<and> c \<noteq> CHR ''+''"
  by (auto simp: is_digit_def)

lemma dropWhile_self: "xs \<noteq> [] \<Longrightarrow> \<not> P (hd xs) \<Longrightarrow> dropWhile P xs = xs"
  by (cases xs) auto

lemma py_strip_id: "s \<noteq> [] \<Longrightarrow> \<not> py_isspace (hd s) \<Longrightarrow> \<not> py_isspace (last s) \<Longrightarrow> py_strip s = s"
  by (simp add: py_strip_def dropWhile_self hd_rev)

lemma str_nat_hd_last: "is_digit (hd (str_nat n)) \<and> is_digit (last (str_nat n))"
  using str_nat_digits [of n] str_nat_nonempty [of n]
  by (cases "str_nat n") (auto simp: list_all_iff)

lemma py_strip_str_nat: "py_strip (str_nat n) = str_nat n"
  using str_nat_hd_last [of n] str_nat_nonempty [of n]
  by (intro py_strip_id) (auto dest: is_digit_not_space)

lemma py_strip_minus_str_nat: "py_strip (CHR ''-'' # str_nat n) = CHR ''-'' # str_nat n"
proof (rule py_strip_id)
  show "\<not> py_isspace (last (CHR ''-'' # str_nat n))"
    using str_nat_hd_last [of n] str_nat_nonempty [of n] by (auto dest: is_digit_not_space)
qed (simp_all add: py_isspace_def)

lemma py_int_py_str_int: "py_int (py_str_int i) = Some i"
proof (cases "i < 0")
  case True
  then show ?thesis
    by (simp add: py_int_def py_str_int_def py_strip_minus_str_nat parse_nat_str_nat)
next
  case False
  obtain c cs where eq: "str_nat (nat i) = c # cs"
    using str_nat_nonempty [of "nat i"] by (cases "str_nat (nat i)") auto
  have "is_digit c" using str_nat_hd_last [of "nat i"] eq by simp
  then have ns: "c \<noteq> CHR ''-''" "c \<noteq> CHR ''+''" using is_digit_not_sign by auto
  have "parse_nat (c # cs) = Some (nat i)" using parse_nat_str_nat [of "nat i"] eq by simp
  with False ns show ?thesis
    using py_strip_str_nat [of "nat i"] by (simp add: py_int_def py_str_int_def eq)
qed

lemma split_on_append: "sep \<notin> set g \<Longrightarrow> split_on sep cur (g @ xs) = split_on sep (cur @ g) xs"
  by (induction g arbitrary: cur) auto

lemma split_on_join:
  "gs \<noteq> [] \<Longrightarrow> \<forall>g\<in>set gs. CHR '','' \<notin> set g \<Longrightarrow>
   split_on CHR '','' cur (py_join_comma gs) = (cur @ hd gs) # tl gs"
proof (induction gs arbitrary: cur rule: py_join_comma.induct)
  case 1
  then show ?case by simp
next
  case (2 x)
  then show ?case using split_on_append [of "CHR '',''" x cur "[]"] by simp
next
  case (3 x y ys)
  have "split_on CHR '','' cur (x @ '','' @ py_join_comma (y # ys))
        = split_on CHR '','' (cur @ x) ('','' @ py_join_comma (y # ys))"
    using 3 by (intro split_on_append) simp
  also have "\<dots> = (cur @ x) # split_on CHR '','' [] (py_join_comma (y # ys))" by simp
  also have "\<dots> = (cur @ x) # ([] @ hd (y # ys)) # tl (y # ys)"
    using 3 by simp
  finally show ?case by simp
qed

lemma split_join: "gs \<noteq> [] \<Longrightarrow> \<forall>g\<in>set gs. CHR '','' \<notin> set g \<Longrightarrow> py_split_comma (py_join_comma gs) = gs"
  by (simp add: py_split_comma_def split_on_join)

lemma suffix_cases: "a @ f = b @ k \<Longrightarrow> suffix f k \<or> suffix k f"
  by (metis suffixI suffix_same_cases)

lemma token_key_suffix: "f \<in> set TOKEN_KEYS \<Longrightarrow> k \<in> set TOKEN_KEYS \<Longrightarrow> suffix f k \<Longrightarrow> f = k"
  by (auto simp: TOKEN_KEYS_def suffix_def Cons_eq_append_conv append_eq_Cons_conv)

lemma token_key_inj: "f \<in> set TOKEN_KEYS \<Longrightarrow> k \<in> set TOKEN_KEYS \<Longrightarrow> a @ f = b @ k \<Longrightarrow> a = b \<and> f = k"
  using suffix_cases [of a f b k] token_key_suffix [of f k] token_key_suffix [of k f] by auto

lemma map_of_serialize_items:
  "map_of (serialize_items rs t items) =
   map_of items ++ map_of (map (\<lambda>(k, v). (serialize_token rs k, serialize_value v)) (rev t))"
proof (induction t arbitrary: items)
  case Nil
  then show ?case by (simp add: serialize_items_def)
next
  case (Cons x t)
  obtain k v where x: "x = (k, v)" by (cases x)
  have "serialize_items rs (x # t) items
        = serialize_items rs t (AList.update (serialize_token rs k) (serialize_value v) items)"
    by (simp add: serialize_items_def x)
  then show ?case
    by (simp add: Cons.IH x update_conv' map_add_def fun_eq_iff split: option.splits)
qed

lemma serialize_token_inj: "serialize_token rs k = serialize_token rs k' \<Longrightarrow> k = k'"
  by (simp add: serialize_token_def)

lemma map_of_rev_distinct: "distinct (map fst xs) \<Longrightarrow> map_of (rev xs) = map_of xs"
  by (subst map_of_inject_set) (simp_all add: rev_map [symmetric])

lemma map_of_renamed:
  "distinct (map fst t) \<Longrightarrow>
   map_of (map (\<lambda>(k, v). (serialize_token rs k, serialize_value v)) (rev t)) (serialize_token rs k)
   = map_option serialize_value (map_of t k)"
proof -
  assume d: "distinct (map fst t)"
  have "map_of (map (\<lambda>(k, v). (serialize_token rs k, serialize_value v)) xs) (serialize_token rs k)
        = map_option serialize_value (map_of xs k)" for xs
    by (induction xs) (auto dest: serialize_token_inj)
  moreover have "map_of (rev t) = map_of t" using d by (rule map_of_rev_distinct)
  ultimately show ?thesis by simp
qed

lemma map_of_renamed_None:
  "\<forall>k\<in>fst ` set t. key \<noteq> serialize_token rs k \<Longrightarrow>
   map_of (map (\<lambda>(k, v). (serialize_token rs k, serialize_value v)) (rev t)) key = None"
  by (auto simp: map_of_eq_None_iff image_iff)

lemma serialize_items_hit:
  "distinct (map fst t) \<Longrightarrow> map_of t k = Some v \<Longrightarrow>
   map_of (serialize_items rs t items) (serialize_token rs k) = Some (serialize_value v)"
  by (simp add: map_of_serialize_items map_add_def map_of_renamed)

lemma serialize_items_miss:
  "\<forall>k\<in>fst ` set t. key \<noteq> serialize_token rs k \<Longrightarrow>
   map_of (serialize_items rs t items) key = map_of items key"
  by (simp add: map_of_serialize_items map_add_def map_of_renamed_None)

lemma serialize_loop_snoc:
  "serialize_loop (ts @ [x]) items groups =
   (case serialize_loop ts items groups of
      Inl e \<Rightarrow> Inl e
    | Inr (i, g) \<Rightarrow> serialize_loop [x] i g)"
  by (induction ts arbitrary: items groups) (auto split: option.splits pyval.splits)

lemma wf_map_of:
  assumes "wf_token_set t" "k \<in> set TOKEN_KEYS"
  shows "map_of t k = Some (dict_get t k)"
proof -
  have "k \<in> fst ` set t" using assms by (auto simp: wf_token_set_def)
  then obtain v where "map_of t k = Some v"
    by (metis domD dom_map_of_conv_image_fst)
  then show ?thesis by (simp add: dict_get_def)
qed

lemma wf_resource_server:
  assumes "wf_token_set t"
  shows "map_of t ''resource_server'' = Some (PStr (rs_of t))"
proof -
  have "nonempty_str (dict_get t ''resource_server'')" using assms by (simp add: wf_token_set_def)
  then have "dict_get t ''resource_server'' = PStr (rs_of t)"
    by (auto simp: nonempty_str_def rs_of_def split: pyval.splits)
  moreover have "map_of t ''resource_server'' = Some (dict_get t ''resource_server'')"
    using assms by (intro wf_map_of) (simp_all add: TOKEN_KEYS_def)
  ultimately show ?thesis by simp
qed

lemma serialize_loop_single:
  "wf_token_set x \<Longrightarrow>
   serialize_loop [x] i g = Inr (serialize_items (rs_of x) x i, g @ [serialize_token (rs_of x) []])"
  by (simp add: wf_resource_server)

lemma serialize_token_eq_iff:
  "f \<in> set TOKEN_KEYS \<Longrightarrow> k \<in> set TOKEN_KEYS \<Longrightarrow>
   serialize_token r f = serialize_token r' k \<longleftrightarrow> replace_dot r = replace_dot r' \<and> f = k"
proof
  assume fk: "f \<in> set TOKEN_KEYS" "k \<in> set TOKEN_KEYS"
    and "serialize_token r f = serialize_token r' k"
  then have "(replace_dot r @ ''_'') @ f = (replace_dot r' @ ''_'') @ k"
    by (simp add: serialize_token_def)
  from token_key_inj [OF fk this] show "replace_dot r = replace_dot r' \<and> f = k" by simp
qed (simp add: serialize_token_def)

lemma serialize_loop_wf:
  assumes "\<forall>t\<in>set ts. wf_token_set t"
  shows "\<exists>items'. serialize_loop ts items groups =
            Inr (items', groups @ map (\<lambda>t. serialize_token (rs_of t) []) ts) \<and>
          (\<forall>t\<in>set ts. \<forall>k\<in>set TOKEN_KEYS.
             map_of items' (serialize_token (rs_of t) k) =
             Some (serialize_value (dict_get (last_with ts t) k))) \<and>
          (\<forall>key. (\<forall>t\<in>set ts. \<forall>k\<in>set TOKEN_KEYS. key \<noteq> serialize_token (rs_of t) k) \<longrightarrow>
             map_of items' key = map_of items key)"
  using assms
proof (induction ts rule: rev_induct)
  case Nil
  then show ?case by simp
next
  case (snoc x ts)
  then obtain i where
    run: "serialize_loop ts items groups = Inr (i, groups @ map (\<lambda>t. serialize_token (rs_of t) []) ts)"
    and hit: "\<forall>t\<in>set ts. \<forall>k\<in>set TOKEN_KEYS.
             map_of i (serialize_token (rs_of t) k) =
             Some (serialize_value (dict_get (last_with ts t) k))"
    and miss: "\<forall>key. (\<forall>t\<in>set ts. \<forall>k\<in>set TOKEN_KEYS. key \<noteq> serialize_token (rs_of t) k) \<longrightarrow>
             map_of i key = map_of items key"
    by auto
  have wfx: "wf_token_set x" using snoc.prems by simp
  have keysx: "fst ` set x = set TOKEN_KEYS" "distinct (map fst x)"
    using wfx by (auto simp: wf_token_set_def)
  let ?i' = "serialize_items (rs_of x) x i"
  have res: "serialize_loop (ts @ [x]) items groups =
     Inr (?i', groups @ map (\<lambda>t. serialize_token (rs_of t) []) (ts @ [x]))"
    by (simp add: serialize_loop_snoc run serialize_loop_single [OF wfx] del: serialize_loop.simps)
  have xval: "map_of ?i' (serialize_token (rs_of x) k) = Some (serialize_value (dict_get x k))"
    if "k \<in> set TOKEN_KEYS" for k
    using serialize_items_hit [OF keysx(2) wf_map_of [OF wfx that]] .
  have other: "map_of ?i' key = map_of i key"
    if "\<forall>k\<in>set TOKEN_KEYS. key \<noteq> serialize_token (rs_of x) k" for key
    using that keysx(1) by (intro serialize_items_miss) simp
  have A: "map_of ?i' (serialize_token (rs_of t) k) =
             Some (serialize_value (dict_get (last_with (ts @ [x]) t) k))"
    if t: "t \<in> set (ts @ [x])" and k: "k \<in> set TOKEN_KEYS" for t k
  proof (cases "replace_dot (rs_of x) = replace_dot (rs_of t)")
    case True
    then have "serialize_token (rs_of t) k = serialize_token (rs_of x) k"
      by (simp add: serialize_token_def)
    moreover have "last_with (ts @ [x]) t = x" using True by (simp add: last_with_def)
    ultimately show ?thesis using xval [OF k] by simp
  next
    case False
    then have tin: "t \<in> set ts" using t by auto
    have "\<forall>k'\<in>set TOKEN_KEYS. serialize_token (rs_of t) k \<noteq> serialize_token (rs_of x) k'"
      using False k by (auto simp: serialize_token_eq_iff)
    then have "map_of ?i' (serialize_token (rs_of t) k) = map_of i (serialize_token (rs_of t) k)"
      by (rule other)
    moreover have "last_with (ts @ [x]) t = last_with ts t"
      using False by (simp add: last_with_def)
    ultimately show ?thesis using hit tin k by simp
  qed
  have B: "map_of ?i' key = map_of items key"
    if "\<forall>t\<in>set (ts @ [x]). \<forall>k\<in>set TOKEN_KEYS. key \<noteq> serialize_token (rs_of t) k" for key
  proof -
    have "map_of ?i' key = map_of i key" using that by (intro other) simp
    also have "\<dots> = map_of items key" using that miss by simp
    finally show ?thesis .
  qed
  show ?case using res A B by blast
qed

lemma update_values: "v' \<in> snd ` set (AList.update k v al) \<Longrightarrow> v' = v \<or> v' \<in> snd ` set al"
  by (induction al) (auto split: if_splits)

lemma serialize_items_str:
  "\<forall>v\<in>snd ` set items. is_str v \<Longrightarrow> \<forall>v\<in>snd ` set t. is_str (serialize_value v) \<Longrightarrow>
   \<forall>v\<in>snd ` set (serialize_items rs t items). is_str v"
proof (induction t arbitrary: items)
  case Nil
  then show ?case by (simp add: serialize_items_def)
next
  case (Cons x t)
  obtain k v where x: "x = (k, v)" by (cases x)
  have step: "serialize_items rs (x # t) items
        = serialize_items rs t (AList.update (serialize_token rs k) (serialize_value v) items)"
    by (simp add: serialize_items_def x)
  have "is_str v'"
    if "v' \<in> snd ` set (AList.update (serialize_token rs k) (serialize_value v) items)" for v'
    using update_values [OF that] Cons.prems x by auto
  then show ?case unfolding step using Cons.prems by (intro Cons.IH) auto
qed

lemma serialize_items_distinct:
  "distinct (map fst items) \<Longrightarrow> distinct (map fst (serialize_items rs t items))"
proof (induction t arbitrary: items)
  case Nil
  then show ?case by (simp add: serialize_items_def)
next
  case (Cons x t)
  obtain k v where x: "x = (k, v)" by (cases x)
  have step: "serialize_items rs (x # t) items
        = serialize_items rs t (AList.update (serialize_token rs k) (serialize_value v) items)"
    by (simp add: serialize_items_def x)
  show ?case unfolding step using Cons.prems by (intro Cons.IH) (simp add: distinct_update)
qed

lemma wf_values_str:
  assumes "wf_token_set t"
  shows "\<forall>v\<in>snd ` set t. is_str (serialize_value v)"
proof
  fix v assume "v \<in> snd ` set t"
  then obtain k where kv: "(k, v) \<in> set t" by auto
  have d: "distinct (map fst t)" and ks: "fst ` set t = set TOKEN_KEYS"
    using assms by (auto simp: wf_token_set_def)
  have "map_of t k = Some v" using kv d by simp
  then have v: "dict_get t k = v" by (simp add: dict_get_def)
  have "k \<in> set TOKEN_KEYS" using kv ks by force
  then have "nonempty_str v \<or> optional_str v \<or> nonzero_int v"
    using assms v by (auto simp: wf_token_set_def TOKEN_KEYS_def)
  then show "is_str (serialize_value v)"
    by (auto simp: nonempty_str_def optional_str_def nonzero_int_def is_str_def split: pyval.splits)
qed

lemma serialize_loop_str:
  "serialize_loop ts items groups = Inr (items', g') \<Longrightarrow> \<forall>t\<in>set ts. wf_token_set t \<Longrightarrow>
   \<forall>v\<in>snd ` set items. is_str v \<Longrightarrow> distinct (map fst items) \<Longrightarrow>
   (\<forall>v\<in>snd ` set items'. is_str v) \<and> distinct (map fst items')"
proof (induction ts arbitrary: items groups)
  case Nil
  then show ?case by simp
next
  case (Cons t ts)
  have wft: "wf_token_set t" using Cons.prems by simp
  have run: "serialize_loop ts (serialize_items (rs_of t) t items)
               (groups @ [serialize_token (rs_of t) []]) = Inr (items', g')"
    using Cons.prems(1) by (simp add: wf_resource_server [OF wft])
  show ?case
  proof (rule Cons.IH [OF run])
    show "\<forall>v\<in>snd ` set (serialize_items (rs_of t) t items). is_str v"
      using Cons.prems(3) wf_values_str [OF wft] by (rule serialize_items_str)
    show "distinct (map fst (serialize_items (rs_of t) t items))"
      using Cons.prems(4) by (rule serialize_items_distinct)
  qed (use Cons.prems in simp)
qed

lemma set_all_str:
  "\<forall>v\<in>snd ` set items. is_str v \<Longrightarrow>
   \<exists>c'. set_all c (PStr s) items = (Inr (), c') \<and>
        (items \<noteq> [] \<longrightarrow> parser c' s \<noteq> None) \<and>
        (\<forall>k. section_of c' s k =
              (case map_of (rev items) k of Some v \<Rightarrow> Some (the_str v)
               | None \<Rightarrow> section_of c s k))"
proof (induction items arbitrary: c)
  case Nil
  then show ?case by simp
next
  case (Cons x items)
  obtain k v where x: "x = (k, v)" by (cases x)
  obtain sv where v: "v = PStr sv" using Cons.prems x by (auto simp: is_str_def split: pyval.splits)
  let ?c1 = "\<lparr>parser = set_option (parser c) s k sv,
              write_file = Some (set_option (get_write_config c) s k sv)\<rparr>"
  have step: "set_all c (PStr s) (x # items) = set_all ?c1 (PStr s) items"
    by (simp add: x v config_set_def)
  have sec1: "section_of ?c1 s = (section_of c s)(k \<mapsto> sv)"
    by (auto simp: section_of_def set_option_def split: option.splits)
  have p1: "parser ?c1 s \<noteq> None" by (simp add: set_option_def)
  from Cons.IH [of ?c1] Cons.prems obtain c' where
    run: "set_all ?c1 (PStr s) items = (Inr (), c')"
    and ne: "items \<noteq> [] \<longrightarrow> parser c' s \<noteq> None"
    and sec: "\<forall>k. section_of c' s k =
              (case map_of (rev items) k of Some v \<Rightarrow> Some (the_str v)
               | None \<Rightarrow> section_of ?c1 s k)"
    by auto
  have pres: "parser c' s \<noteq> None"
  proof (cases "items = []")
    case True
    then show ?thesis using run p1 by simp
  next
    case False
    then show ?thesis using ne by simp
  qed
  have "section_of c' s key =
              (case map_of (rev (x # items)) key of Some v \<Rightarrow> Some (the_str v)
               | None \<Rightarrow> section_of c s key)" for key
    using sec sec1 by (simp add: x v map_add_def the_str_def split: option.splits)
  then show ?case using step run pres by auto
qed

lemma roundtrip_nonempty:
  "nonempty_str v \<Longrightarrow> m key = Some (the_str (serialize_value v)) \<Longrightarrow>
   items_get m key = v \<and> truthy v"
  by (auto simp: nonempty_str_def items_get_def the_str_def split: pyval.splits)

lemma roundtrip_optional:
  "optional_str v \<Longrightarrow> m key = Some (the_str (serialize_value v)) \<Longrightarrow>
   (if truthy (items_get m key) then items_get m key else PNone) = v"
  by (auto simp: optional_str_def items_get_def the_str_def split: pyval.splits)

lemma roundtrip_int:
  "nonzero_int v \<Longrightarrow> m key = Some (the_str (serialize_value v)) \<Longrightarrow>
   py_int_of (items_get m key) = Inr v \<and> truthy v"
  by (auto simp: nonzero_int_def items_get_def the_str_def py_int_py_str_int split: pyval.splits)

lemma deserialize_group_wf:
  assumes wf: "wf_token_set t"
    and m: "\<forall>k\<in>set TOKEN_KEYS. m (grp @ k) = Some (the_str (serialize_value (dict_get t k)))"
  shows "deserialize_group m grp = Inr (reorder t)"
proof -
  have m1: "m (grp @ ''scope'') = Some (the_str (serialize_value (dict_get t ''scope'')))"
    and m2: "m (grp @ ''access_token'') = Some (the_str (serialize_value (dict_get t ''access_token'')))"
    and m3: "m (grp @ ''refresh_token'') = Some (the_str (serialize_value (dict_get t ''refresh_token'')))"
    and m4: "m (grp @ ''token_type'') = Some (the_str (serialize_value (dict_get t ''token_type'')))"
    and m5: "m (grp @ ''expires_at_seconds'') = Some (the_str (serialize_value (dict_get t ''expires_at_seconds'')))"
    and m6: "m (grp @ ''resource_server'') = Some (the_str (serialize_value (dict_get t ''resource_server'')))"
    using m by (simp_all add: TOKEN_KEYS_def)
  have w1: "nonempty_str (dict_get t ''scope'')"
    and w2: "nonempty_str (dict_get t ''access_token'')"
    and w3: "optional_str (dict_get t ''refresh_token'')"
    and w4: "optional_str (dict_get t ''token_type'')"
    and w5: "nonzero_int (dict_get t ''expires_at_seconds'')"
    and w6: "nonempty_str (dict_get t ''resource_server'')"
    using wf by (simp_all add: wf_token_set_def)
  note r1 = roundtrip_nonempty [where m = m and key = "grp @ ''scope''", OF w1 m1]
  note r2 = roundtrip_nonempty [where m = m and key = "grp @ ''access_token''", OF w2 m2]
  note r3 = roundtrip_optional [where m = m and key = "grp @ ''refresh_token''", OF w3 m3]
  note r4 = roundtrip_optional [where m = m and key = "grp @ ''token_type''", OF w4 m4]
  note r5 = roundtrip_int [where m = m and key = "grp @ ''expires_at_seconds''", OF w5 m5]
  note r6 = roundtrip_nonempty [where m = m and key = "grp @ ''resource_server''", OF w6 m6]
  show ?thesis
    using r1 r2 r3 r4 r5 r6
    by (simp add: deserialize_group_def reorder_def TOKEN_KEYS_def deserialize_token_def
        dict_get_def [of "(_ # _)"] Let_def)
qed

lemma deserialize_loop_map:
  "\<forall>g\<in>set gs. deserialize_group m g = Inr (f g) \<Longrightarrow>
   deserialize_loop m gs acc =
   Inr (foldl (\<lambda>acc g. AList.update (dict_get (f g) ''resource_server'') (f g) acc) acc gs)"
  by (induction gs arbitrary: acc) auto

lemma reorder_resource_server:
  "wf_token_set t \<Longrightarrow> dict_get (reorder t) ''resource_server'' = PStr (rs_of t)"
  by (auto simp: reorder_def TOKEN_KEYS_def dict_get_def [of "(_ # _)"] wf_token_set_def
      nonempty_str_def rs_of_def split: pyval.splits)

lemma reorder_no_missing:
  "wf_token_set t \<Longrightarrow> missing_keys (reorder t) = []"
  by (auto simp: reorder_def TOKEN_KEYS_def REQUIRED_KEYS_def missing_keys_def
      dict_get_def [of "(_ # _)"] wf_token_set_def
      nonempty_str_def nonzero_int_def split: pyval.splits)

lemma token_key_not_groups:
  "k \<in> set TOKEN_KEYS \<Longrightarrow> serialize_token r k \<noteq> CONFIG_TOKEN_GROUPS"
proof
  assume k: "k \<in> set TOKEN_KEYS" and "serialize_token r k = CONFIG_TOKEN_GROUPS"
  then have "suffix k ''token_groups''"
    by (metis CONFIG_TOKEN_GROUPS_def serialize_token_def suffixI append_assoc)
  with k show False
    by (auto simp: TOKEN_KEYS_def suffix_def Cons_eq_append_conv append_eq_Cons_conv)
qed

lemma update_nonempty: "AList.update k v al \<noteq> []"
  by (cases al) auto

lemma last_with_in:
  "t \<in> set ts \<Longrightarrow> last_with ts t \<in> set ts \<and>
   replace_dot (rs_of (last_with ts t)) = replace_dot (rs_of t)"
proof -
  assume t: "t \<in> set ts"
  let ?F = "filter (\<lambda>t'. replace_dot (rs_of t') = replace_dot (rs_of t)) ts"
  have "?F \<noteq> []" using t by (auto simp: filter_empty_conv)
  then have "last ?F \<in> set ?F" by (rule last_in_set)
  then show ?thesis by (simp add: last_with_def)
qed

lemma save_section:
  assumes wf: "\<forall>t\<in>set (dict_values T). wf_token_set t"
  shows "\<exists>c' m. save_tokens c T (PStr s) = (Inr (), c') \<and> parser c' s = Some m \<and>
     m CONFIG_TOKEN_GROUPS =
       Some (py_join_comma (map (\<lambda>t. serialize_token (rs_of t) []) (dict_values T))) \<and>
     (\<forall>t\<in>set (dict_values T). \<forall>k\<in>set TOKEN_KEYS.
        m (serialize_token (rs_of t) k) =
        Some (the_str (serialize_value (dict_get (last_with (dict_values T) t) k))))"
proof -
  let ?ts = "dict_values T"
  let ?g = "map (\<lambda>t. serialize_token (rs_of t) []) ?ts"
  from serialize_loop_wf [OF wf, of "[]" "[]"] obtain items' where
    run: "serialize_loop ?ts [] [] = Inr (items', ?g)"
    and hit: "\<forall>t\<in>set ?ts. \<forall>k\<in>set TOKEN_KEYS.
             map_of items' (serialize_token (rs_of t) k) =
             Some (serialize_value (dict_get (last_with ?ts t) k))"
    by auto
  let ?S = "AList.update CONFIG_TOKEN_GROUPS (PStr (py_join_comma ?g)) items'"
  have ser: "serialize_token_groups T = Inr ?S"
    by (simp add: serialize_token_groups_def run)
  from serialize_loop_str [OF run wf] have
    str: "\<forall>v\<in>snd ` set items'. is_str v" and d: "distinct (map fst items')"
    by auto
  have strS: "\<forall>v\<in>snd ` set ?S. is_str v"
  proof
    fix v assume "v \<in> snd ` set ?S"
    from update_values [OF this] str show "is_str v" by (auto simp: is_str_def)
  qed
  have dS: "distinct (map fst ?S)" using d by (rule distinct_update)
  from set_all_str [OF strS, of c s] obtain c' where
    run2: "set_all c (PStr s) ?S = (Inr (), c')"
    and ne: "parser c' s \<noteq> None"
    and sec: "\<forall>k. section_of c' s k =
              (case map_of (rev ?S) k of Some v \<Rightarrow> Some (the_str v)
               | None \<Rightarrow> section_of c s k)"
    using update_nonempty [of CONFIG_TOKEN_GROUPS "PStr (py_join_comma ?g)" items'] by auto
  from ne obtain m where m: "parser c' s = Some m" by auto
  then have secm: "section_of c' s = m" by (simp add: section_of_def)
  have mapS: "map_of (rev ?S) = (map_of items')(CONFIG_TOKEN_GROUPS \<mapsto> PStr (py_join_comma ?g))"
    using map_of_rev_distinct [OF dS] by (simp add: update_conv')
  have g: "m CONFIG_TOKEN_GROUPS = Some (py_join_comma ?g)"
    using sec secm mapS by (simp add: the_str_def)
  have "m (serialize_token (rs_of t) k) =
        Some (the_str (serialize_value (dict_get (last_with ?ts t) k)))"
    if "t \<in> set ?ts" "k \<in> set TOKEN_KEYS" for t k
  proof -
    have "serialize_token (rs_of t) k \<noteq> CONFIG_TOKEN_GROUPS"
      using that(2) by (rule token_key_not_groups)
    then have "map_of (rev ?S) (serialize_token (rs_of t) k) =
               Some (serialize_value (dict_get (last_with ?ts t) k))"
      using hit that by (simp add: mapS)
    then show ?thesis using sec secm by simp
  qed
  then show ?thesis using ser run2 m g by (auto simp: save_tokens_def)
qed

lemma deserialize_loop_over:
  "\<forall>t\<in>set ts. deserialize_group m (G t) = Inr (F t) \<Longrightarrow>
   deserialize_loop m (map G ts) acc =
   Inr (foldl (\<lambda>acc t. AList.update (dict_get (F t) ''resource_server'') (F t) acc) acc ts)"
  by (induction ts arbitrary: acc) auto

lemma foldl_update_values:
  "v \<in> snd ` set (foldl (\<lambda>acc t. AList.update (K t) (F t) acc) acc ts) \<Longrightarrow>
   v \<in> snd ` set acc \<or> v \<in> F ` set ts"
proof (induction ts arbitrary: acc)
  case Nil
  then show ?case by simp
next
  case (Cons t ts)
  from Cons.IH [of "AList.update (K t) (F t) acc"] Cons.prems
  have "v \<in> snd ` set (AList.update (K t) (F t) acc) \<or> v \<in> F ` set ts" by simp
  then show ?case using update_values [of v "K t" "F t" acc] by auto
qed

lemma replace_dot_comma: "CHR '','' \<notin> set r \<Longrightarrow> CHR '','' \<notin> set (replace_dot r)"
  by (auto simp: replace_dot_def)

lemma load_after_save:
  assumes wf: "\<forall>t\<in>set (dict_values T). wf_token_set t" and ne: "T \<noteq> []"
  shows "\<exists>c'. save_tokens c T (PStr s) = (Inr (), c') \<and>
    load_tokens c' (PStr s) (PList []) (PBool False) now = Inr (loaded_of (dict_values T))"
proof -
  let ?ts = "dict_values T"
  let ?G = "\<lambda>t. serialize_token (rs_of t) []"
  let ?F = "\<lambda>t. reorder (last_with ?ts t)"
  from save_section [OF wf, of c s] obtain c' m where
    save: "save_tokens c T (PStr s) = (Inr (), c')" and m: "parser c' s = Some m"
    and groups: "m CONFIG_TOKEN_GROUPS = Some (py_join_comma (map ?G ?ts))"
    and vals: "\<forall>t\<in>set ?ts. \<forall>k\<in>set TOKEN_KEYS.
        m (serialize_token (rs_of t) k) =
        Some (the_str (serialize_value (dict_get (last_with ?ts t) k)))"
    by blast
  have wfl: "wf_token_set (last_with ?ts t)" if "t \<in> set ?ts" for t
    using last_with_in [OF that] wf by simp
  have nocomma: "\<forall>g\<in>set (map ?G ?ts). CHR '','' \<notin> set g"
    using wf by (auto simp: serialize_token_def wf_token_set_def dest: replace_dot_comma)
  have "map ?G ?ts \<noteq> []" using ne by (simp add: dict_values_def)
  then have split: "py_split_comma (py_join_comma (map ?G ?ts)) = map ?G ?ts"
    using nocomma by (rule split_join)
  have grp: "deserialize_group m (?G t) = Inr (?F t)" if t: "t \<in> set ?ts" for t
  proof (rule deserialize_group_wf [OF wfl [OF t]])
    show "\<forall>k\<in>set TOKEN_KEYS. m (?G t @ k) =
            Some (the_str (serialize_value (dict_get (last_with ?ts t) k)))"
      using vals t by (simp add: serialize_token_def)
  qed
  have key: "dict_get (?F t) ''resource_server'' = PStr (rs_of (last_with ?ts t))"
    if "t \<in> set ?ts" for t
    using reorder_resource_server [OF wfl [OF that]] .
  have "deserialize_loop m (map ?G ?ts) [] =
        Inr (foldl (\<lambda>acc t. AList.update (dict_get (?F t) ''resource_server'') (?F t) acc) [] ?ts)"
    using grp by (intro deserialize_loop_over) simp
  also have "foldl (\<lambda>acc t. AList.update (dict_get (?F t) ''resource_server'') (?F t) acc) [] ?ts
             = loaded_of ?ts"
    unfolding loaded_of_def using key by (intro foldl_cong) auto
  finally have des: "deserialize_token_groups (get_section c' (PStr s)) = Inr (loaded_of ?ts)"
    by (simp add: deserialize_token_groups_def get_section_def m groups split)
  have "missing_keys v = []" if "v \<in> set (dict_values (loaded_of ?ts))" for v
  proof -
    have "v \<in> snd ` set (loaded_of ?ts)" using that by (simp add: dict_values_def)
    then have "v \<in> snd ` set ([] :: tokens) \<or> v \<in> ?F ` set ?ts"
      unfolding loaded_of_def by (rule foldl_update_values)
    then have "v \<in> ?F ` set ?ts" by simp
    then show ?thesis using wfl by (auto simp: reorder_no_missing)
  qed
  then have req: "\<not> list_ex (\<lambda>tok_set. py_any_str (missing_keys tok_set)) (dict_values (loaded_of ?ts))"
    by (simp add: list_ex_iff py_any_str_def)
  have "load_tokens c' (PStr s) (PList []) (PBool False) now = Inr (loaded_of ?ts)"
    using req by (simp add: load_tokens_def des scope_check_def expiry_check_def is_True_def)
  with save show ?thesis by blast
qed

section \<open>Saving and then loading\<close>

lemma filter_same_distinct:
  "distinct (map f ts) \<Longrightarrow> t \<in> set ts \<Longrightarrow> filter (\<lambda>t'. f t' = f t) ts = [t]"
proof (induction ts)
  case Nil
  then show ?case by simp
next
  case (Cons x ts)
  show ?case
  proof (cases "x = t")
    case True
    have "filter (\<lambda>t'. f t' = f t) ts = []"
      using Cons.prems True by (auto simp: filter_empty_conv image_iff)
    with True show ?thesis by simp
  next
    case False
    then have "t \<in> set ts" using Cons.prems by simp
    moreover have "f x \<noteq> f t" using Cons.prems \<open>t \<in> set ts\<close> by auto
    ultimately show ?thesis using Cons by simp
  qed
qed

lemma last_with_distinct:
  "distinct (map (\<lambda>t. replace_dot (rs_of t)) ts) \<Longrightarrow> t \<in> set ts \<Longrightarrow> last_with ts t = t"
  using filter_same_distinct [of "\<lambda>t. replace_dot (rs_of t)" ts t] by (simp add: last_with_def)

lemma update_fresh: "k \<notin> fst ` set al \<Longrightarrow> AList.update k v al = al @ [(k, v)]"
  by (induction al) auto

lemma foldl_update_fresh:
  "distinct (map K ts) \<Longrightarrow> \<forall>t\<in>set ts. K t \<notin> fst ` set acc \<Longrightarrow>
   foldl (\<lambda>acc t. AList.update (K t) (V t) acc) acc ts = acc @ map (\<lambda>t. (K t, V t)) ts"
proof (induction ts arbitrary: acc)
  case Nil
  then show ?case by simp
next
  case (Cons t ts)
  have step: "AList.update (K t) (V t) acc = acc @ [(K t, V t)]"
    using Cons.prems by (intro update_fresh) simp
  have "foldl (\<lambda>acc t. AList.update (K t) (V t) acc) (acc @ [(K t, V t)]) ts
        = (acc @ [(K t, V t)]) @ map (\<lambda>t. (K t, V t)) ts"
    using Cons.prems by (intro Cons.IH) (auto simp: image_iff)
  then show ?case by (simp add: step)
qed

lemma distinct_rs:
  assumes "distinct (map (\<lambda>t. replace_dot (rs_of t)) ts)"
  shows "distinct (map (\<lambda>t. PStr (rs_of t)) ts)"
proof -
  have "distinct ts" and inj: "inj_on (\<lambda>t. replace_dot (rs_of t)) (set ts)"
    using assms by (simp_all add: distinct_map)
  have "inj_on (\<lambda>t. PStr (rs_of t)) (set ts)"
    using inj by (auto simp: inj_on_def)
  with \<open>distinct ts\<close> show ?thesis by (simp add: distinct_map)
qed

lemma loaded_of_distinct:
  assumes d: "distinct (map (\<lambda>t. replace_dot (rs_of t)) ts)"
  shows "loaded_of ts = map (\<lambda>t. (PStr (rs_of t), reorder t)) ts"
proof -
  have "loaded_of ts =
        foldl (\<lambda>acc t. AList.update (PStr (rs_of t)) (reorder t) acc) [] ts"
    unfolding loaded_of_def using last_with_distinct [OF d] by (intro foldl_cong) auto
  also have "\<dots> = [] @ map (\<lambda>t. (PStr (rs_of t), reorder t)) ts"
    using distinct_rs [OF d] by (intro foldl_update_fresh) auto
  finally show ?thesis by simp
qed






lemma wf_tokens_records:
  assumes "wf_tokens T"
  shows "\<forall>t\<in>set (dict_values T). wf_token_set t"
    and "T \<noteq> []"
    and "distinct (map (\<lambda>t. replace_dot (rs_of t)) (dict_values T))"
    and "map (\<lambda>t. (PStr (rs_of t), reorder t)) (dict_values T) = map (\<lambda>(k, t). (k, reorder t)) T"
proof -
  have all: "\<forall>(k, t)\<in>set T. wf_token_set t \<and> k = PStr (rs_of t)"
    using assms by (simp add: wf_tokens_def list_all_iff)
  show "\<forall>t\<in>set (dict_values T). wf_token_set t"
    using all by (auto simp: dict_values_def)
  show "T \<noteq> []" using assms by (simp add: wf_tokens_def)
  have "map (\<lambda>(k, t). replace_dot (rs_of t)) T = map (\<lambda>t. replace_dot (rs_of t)) (dict_values T)"
    by (simp add: dict_values_def case_prod_unfold)
  then show "distinct (map (\<lambda>t. replace_dot (rs_of t)) (dict_values T))"
    using assms by (simp add: wf_tokens_def)
  show "map (\<lambda>t. (PStr (rs_of t), reorder t)) (dict_values T) = map (\<lambda>(k, t). (k, reorder t)) T"
    using all by (auto simp: dict_values_def)
qed


lemma wf_mock_tokens: "wf_tokens mock_tokens"
  by (simp add: wf_tokens_def mock_tokens_def wf_token_set_def TOKEN_KEYS_def dict_get_def
      nonempty_str_def optional_str_def nonzero_int_def rs_of_def replace_dot_def)






section \<open>Colliding names, the scope check and the expiry check\<close>









lemma py_int_of_items_get:
  "py_int_of (items_get m k) = Inr v \<Longrightarrow> \<exists>n. v = PInt n"
  by (auto simp: items_get_def split: option.splits)

lemma deserialize_group_shape:
  assumes "deserialize_group m g = Inr t"
  shows "group_shape t"
proof -
  obtain v where v: "py_int_of (items_get m (g @ ''expires_at_seconds'')) = Inr v"
    and t: "t = map (\<lambda>(k, v). (k, if truthy v then v else PNone))
          (AList.update ''expires_at_seconds'' v
             (map (\<lambda>k. (k, items_get m (deserialize_token g k))) TOKEN_KEYS))"
    using assms
    by (auto simp: deserialize_group_def Let_def TOKEN_KEYS_def deserialize_token_def
        dict_get_def [of "(_ # _)"] split: sum.splits)
  from py_int_of_items_get [OF v] obtain n where n: "v = PInt n" by auto
  show ?thesis
    unfolding t n
    by (simp add: group_shape_def TOKEN_KEYS_def items_get_def split: option.splits)
qed

lemma deserialize_loop_shape:
  "deserialize_loop m gs acc = Inr toks \<Longrightarrow> \<forall>t\<in>snd ` set acc. group_shape t \<Longrightarrow>
   \<forall>t\<in>snd ` set toks. group_shape t"
proof (induction gs arbitrary: acc)
  case Nil
  then show ?case by simp
next
  case (Cons g gs)
  from Cons.prems(1) obtain t where t: "deserialize_group m g = Inr t"
    and run: "deserialize_loop m gs (AList.update (dict_get t ''resource_server'') t acc) = Inr toks"
    by (auto split: sum.splits)
  have "group_shape u" if "u \<in> snd ` set (AList.update (dict_get t ''resource_server'') t acc)" for u
    using update_values [OF that] deserialize_group_shape [OF t] Cons.prems(2) by auto
  then show ?case using Cons.IH [OF run] by blast
qed

lemma stored_shape:
  assumes "stored c section toks" and "t \<in> set (dict_values toks)"
  shows "\<exists>s n. map_of t ''scope'' = Some (PStr s) \<and> s \<noteq> [] \<and>
               map_of t ''expires_at_seconds'' = Some (PInt n) \<and> n \<noteq> 0"
proof -
  from assms(1) obtain m gs where "deserialize_loop m gs [] = Inr toks"
    by (auto simp: stored_def deserialize_token_groups_def split: option.splits)
  then have "\<forall>t\<in>snd ` set toks. group_shape t" by (rule deserialize_loop_shape) simp
  then have sh: "group_shape t" using assms(2) by (auto simp: dict_values_def)
  have "missing_keys t = []" using assms by (simp add: stored_def list_all_iff)
  then have tr: "truthy (dict_get t ''scope'')" "truthy (dict_get t ''expires_at_seconds'')"
    by (simp_all add: missing_keys_def REQUIRED_KEYS_def split: if_splits)
  from sh tr show ?thesis
    by (auto simp: group_shape_def dict_get_def split: option.splits pyval.splits)
qed

lemma py_any_str_missing: "py_any_str (missing_keys t) \<longleftrightarrow> missing_keys t \<noteq> []"
proof -
  have "\<forall>x\<in>set (missing_keys t). x \<noteq> []"
    by (auto simp: missing_keys_def REQUIRED_KEYS_def)
  then show ?thesis by (cases "missing_keys t") (auto simp: py_any_str_def list_ex_iff)
qed

lemma load_tokens_stored:
  assumes "stored c section toks"
  shows "load_tokens c section requested check now =
     (case scope_check requested toks of
        Some e \<Rightarrow> Inl e
      | None \<Rightarrow> (case expiry_check check now toks of Some e \<Rightarrow> Inl e | None \<Rightarrow> Inr toks))"
proof -
  have "\<not> list_ex (\<lambda>tok_set. py_any_str (missing_keys tok_set)) (dict_values toks)"
    using assms by (simp add: stored_def list_all_iff list_ex_iff py_any_str_missing)
  then show ?thesis using assms by (simp add: load_tokens_def stored_def)
qed

lemma stored_iff_load:
  "stored c section toks \<longleftrightarrow> load_tokens c section (PList []) (PBool False) now = Inr toks"
proof
  assume "stored c section toks"
  then show "load_tokens c section (PList []) (PBool False) now = Inr toks"
    by (simp add: load_tokens_stored scope_check_def expiry_check_def is_True_def)
next
  assume l: "load_tokens c section (PList []) (PBool False) now = Inr toks"
  then obtain x where x: "deserialize_token_groups (get_section c section) = Inr x"
    by (auto simp: load_tokens_def split: sum.splits)
  with l have "x = toks" and "\<not> list_ex (\<lambda>tok_set. py_any_str (missing_keys tok_set)) (dict_values toks)"
    by (auto simp: load_tokens_def scope_check_def expiry_check_def is_True_def split: if_splits)
  with x show "stored c section toks"
    by (simp add: stored_def list_all_iff list_ex_iff py_any_str_missing)
qed

lemma collect_all:
  "\<forall>x\<in>set xs. f x = Inr (g x) \<Longrightarrow> collect f xs = Inr (map g xs)"
  by (induction xs) auto

lemma scope_list_stored:
  assumes "stored c section toks" and "t \<in> set (dict_values toks)"
  shows "scope_list t = Inr (py_split (scope_str t))"
  using stored_shape [OF assms]
  by (auto simp: scope_list_def scope_str_def dict_get_def)

lemma is_expired_stored:
  assumes "stored c section toks" and "t \<in> set (dict_values toks)"
  shows "is_expired now t = Inr (now \<ge> of_int (expires_at t))"
  using stored_shape [OF assms]
  by (auto simp: is_expired_def expires_at_def dict_get_def)

lemma scope_check_stored:
  assumes st: "stored c section toks" and ne: "requested \<noteq> []"
  shows "scope_check (PList (map PStr requested)) toks =
     (if loaded_scopes toks \<subseteq> set requested then None else Some RequestedScopesMismatch)"
proof -
  have col: "collect scope_list (dict_values toks) =
        Inr (map (\<lambda>t. py_split (scope_str t)) (dict_values toks))"
    using scope_list_stored [OF st] by (intro collect_all) simp
  have "list_all hashable (map PStr requested)" by (simp add: list_all_iff)
  then have set: "py_set (PList (map PStr requested)) = Inr (map PStr requested)"
    by simp
  have "list_ex (\<lambda>s. PStr s \<notin> set (map PStr requested))
          (concat (map (\<lambda>t. py_split (scope_str t)) (dict_values toks)))
        \<longleftrightarrow> \<not> loaded_scopes toks \<subseteq> set requested"
    by (auto simp: list_ex_iff loaded_scopes_def)
  then show ?thesis using ne by (simp add: scope_check_def col set del: py_set.simps)
qed

lemma expiry_check_stored:
  assumes st: "stored c section toks"
  shows "expiry_check (PBool True) now toks =
     (if \<exists>t\<in>set (dict_values toks). of_int (expires_at t) \<le> now
      then Some LoadedTokensExpired else None)"
proof -
  have col: "collect (is_expired now) (dict_values toks) =
        Inr (map (\<lambda>t. now \<ge> of_int (expires_at t)) (dict_values toks))"
    using is_expired_stored [OF st] by (intro collect_all) simp
  show ?thesis by (auto simp: expiry_check_def is_True_def col list_ex_iff)
qed

lemma expiry_check_off: "expiry_check (PBool False) now toks = None"
  by (simp add: expiry_check_def is_True_def)

text \<open>
  Claim C3. For every section that holds a credential set and every non-empty collection of requested scopes, \<^verbatim>\<open>load_tokens\<close> raises \<^verbatim>\<open>RequestedScopesMismatch\<close> if and only if the union of the stored scopes is not a subset of the requested scopes; and when it is a subset, the load without the expiry check returns the stored set.
\<close>

theorem scope_mismatch_iff:
  assumes "stored c section toks" and "requested \<noteq> []"
  shows "(load_tokens c section (PList (map PStr requested)) check now = Inl RequestedScopesMismatch
          \<longleftrightarrow> \<not> loaded_scopes toks \<subseteq> set requested) \<and>
         (loaded_scopes toks \<subseteq> set requested \<longrightarrow>
          load_tokens c section (PList (map PStr requested)) (PBool False) now = Inr toks)"
proof -
  have nm: "expiry_check check now toks \<noteq> Some RequestedScopesMismatch"
  proof (cases "is_True check")
    case True
    then show ?thesis using expiry_check_stored [OF assms(1), of now] by (simp add: is_True_def)
  next
    case False
    then show ?thesis by (simp add: expiry_check_def)
  qed
  show ?thesis
    using nm
    by (auto simp: load_tokens_stored [OF assms(1)] scope_check_stored [OF assms] expiry_check_off
        split: option.splits)
qed

text \<open>
  Claim C4. For every section that holds a credential set with a record whose expiry is at or before the current time, and requested scopes that pass the scope check, \<^verbatim>\<open>load_tokens\<close> with the expiry check raises \<^verbatim>\<open>LoadedTokensExpired\<close>, and the same load without the expiry check returns the stored set.
\<close>

theorem expiry_gate:
  assumes "stored c section toks" and "scope_check requested toks = None"
    and "t \<in> set (dict_values toks)" and "of_int (expires_at t) \<le> now"
  shows "load_tokens c section requested (PBool True) now = Inl LoadedTokensExpired \<and>
         load_tokens c section requested (PBool False) now = Inr toks"
  using assms(3,4)
  by (auto simp: load_tokens_stored [OF assms(1)] assms(2) expiry_check_stored [OF assms(1)]
      expiry_check_off)

lemma saved_stored:
  assumes "wf_tokens T"
  shows "stored (snd (save_tokens c T (PStr s))) (PStr s) (map (\<lambda>(k, t). (k, reorder t)) T)"
proof -
  note r = wf_tokens_records [OF assms]
  from load_after_save [OF r(1) r(2), of c s 0] obtain c' where
    save: "save_tokens c T (PStr s) = (Inr (), c')"
    and load: "load_tokens c' (PStr s) (PList []) (PBool False) 0 = Inr (loaded_of (dict_values T))"
    by blast
  have "loaded_of (dict_values T) = map (\<lambda>(k, t). (k, reorder t)) T"
    using loaded_of_distinct [OF r(3)] r(4) by simp
  with load show ?thesis by (simp add: save stored_iff_load [of _ _ _ 0])
qed

lemma wf_scoped_tokens: "wf_tokens scoped_tokens"
  by (simp add: wf_tokens_def scoped_tokens_def wf_token_set_def TOKEN_KEYS_def dict_get_def
      nonempty_str_def optional_str_def nonzero_int_def rs_of_def replace_dot_def)

lemma reorder_scoped: "map (\<lambda>(k, t). (k, reorder t)) scoped_tokens = scoped_tokens"
  by (simp add: scoped_tokens_def reorder_def TOKEN_KEYS_def dict_get_def)

lemma reorder_mock: "map (\<lambda>(k, t). (k, reorder t)) mock_tokens = mock_tokens"
  by (simp add: mock_tokens_def reorder_def TOKEN_KEYS_def dict_get_def)

lemma stored_scoped: "stored scoped_config (PStr ''test'') scoped_tokens"
  using saved_stored [OF wf_scoped_tokens, of empty_config "''test''"]
  by (simp add: scoped_config_def reorder_scoped)

lemma stored_mock: "stored mock_config (PStr ''test'') mock_tokens"
  using saved_stored [OF wf_mock_tokens, of empty_config "''test''"]
  by (simp add: mock_config_def reorder_mock)

lemma loaded_scopes_scoped: "loaded_scopes scoped_tokens = {''A'', ''B''}"
  by (simp add: loaded_scopes_def scoped_tokens_def dict_values_def scope_str_def dict_get_def
      py_split_def py_isspace_def)

text \<open>
  Claim C3 at the stored scopes A and B: requesting A alone raises, requesting A, B and C succeeds.
\<close>

theorem scope_mismatch_iff_witness:
  "stored scoped_config (PStr ''test'') scoped_tokens \<and>
   load_tokens scoped_config (PStr ''test'') (PList [PStr ''A'']) (PBool True) 0
     = Inl RequestedScopesMismatch \<and>
   \<not> loaded_scopes scoped_tokens \<subseteq> {''A''} \<and>
   loaded_scopes scoped_tokens \<subseteq> {''A'', ''B'', ''C''} \<and>
   load_tokens scoped_config (PStr ''test'') (PList [PStr ''A'', PStr ''B'', PStr ''C''])
     (PBool False) 0 = Inr scoped_tokens"
proof -
  have n1: "[''A''] \<noteq> []" and n3: "[''A'', ''B'', ''C''] \<noteq> []" by simp_all
  from scope_mismatch_iff [OF stored_scoped n1, of "PBool True" 0]
    scope_mismatch_iff [OF stored_scoped n3, of "PBool False" 0]
  show ?thesis using stored_scoped by (simp add: loaded_scopes_scoped)
qed

lemma scope_check_none: "scope_check (PList []) toks = None"
  by (simp add: scope_check_def)

text \<open>
  Claim C4 at the tokens of the unit tests, read at the second of their expiry.
\<close>

theorem expiry_gate_witness:
  "stored mock_config (PStr ''test'') mock_tokens \<and>
   scope_check (PList []) mock_tokens = None \<and>
   snd (hd mock_tokens) \<in> set (dict_values mock_tokens) \<and>
   of_int (expires_at (snd (hd mock_tokens))) \<le> (1539984535 :: real) \<and>
   load_tokens mock_config (PStr ''test'') (PList []) (PBool True) 1539984535
     = Inl LoadedTokensExpired \<and>
   load_tokens mock_config (PStr ''test'') (PList []) (PBool False) 1539984535 = Inr mock_tokens"
proof -
  have m: "snd (hd mock_tokens) \<in> set (dict_values mock_tokens)"
    by (simp add: mock_tokens_def dict_values_def)
  have e: "of_int (expires_at (snd (hd mock_tokens))) \<le> (1539984535 :: real)"
    by (simp add: mock_tokens_def expires_at_def dict_get_def)
  from expiry_gate [OF stored_mock scope_check_none m e]
  show ?thesis using stored_mock scope_check_none m e by simp
qed

section \<open>The login shortcut: option names, stored tokens and the redirect target\<close>

lemma defaults_keys:
  "dict_keys (NATIVE_AUTH_DEFAULTS w) =
     [''config_filename'', ''config_section'', ''client_id'', ''requested_scopes'',
      ''refresh_tokens'', ''prefill_named_grant'', ''additional_auth_params'', ''save_tokens'',
      ''check_tokens_expired'', ''force_login'', ''no_local_server'', ''no_browser'',
      ''server_hostname'', ''server_port'', ''redirect_uri'']"
  by (simp add: NATIVE_AUTH_DEFAULTS_def dict_keys_def)

text \<open>
  An unknown option whose name is not the empty string is refused before anything else happens: the configuration is unchanged and the trace is empty.
\<close>

lemma unknown_option_rejected:
  assumes "k \<in> set (dict_keys kwargs)" and "k \<notin> set (dict_keys (NATIVE_AUTH_DEFAULTS w))"
    and "k \<noteq> []"
  shows "native_auth w c kwargs now_load now_clear = (Inl ValueError, c, [])"
proof -
  from assms have "py_any_str (unaccepted w kwargs)"
    by (auto simp: py_any_str_def unaccepted_def list_ex_iff)
  then show ?thesis by (simp add: native_auth_def)
qed

lemma map_of_defaults_map:
  "map_of (map (\<lambda>(k, v). (k, f k v)) d) k = map_option (f k) (map_of d k)"
  by (induction d) auto

lemma opts_lookup:
  "map_of (map (\<lambda>(k, v). (k, case map_of kwargs k of None \<Rightarrow> v | Some x \<Rightarrow> x))
       (NATIVE_AUTH_DEFAULTS w)) k =
   map_option (\<lambda>v. case map_of kwargs k of None \<Rightarrow> v | Some x \<Rightarrow> x)
     (map_of (NATIVE_AUTH_DEFAULTS w) k)"
  by (rule map_of_defaults_map)

lemma resolve_opts_get:
  assumes "k \<in> set (dict_keys (NATIVE_AUTH_DEFAULTS w))" and "k \<noteq> ''redirect_uri''"
  shows "dict_get (resolve_opts w kwargs) k =
     (case map_of kwargs k of None \<Rightarrow> dict_get (NATIVE_AUTH_DEFAULTS w) k | Some x \<Rightarrow> x)"
proof -
  from assms(1) obtain v where v: "map_of (NATIVE_AUTH_DEFAULTS w) k = Some v"
    by (auto simp: dict_keys_def weak_map_of_SomeI dest!: weak_map_of_SomeI)
  show ?thesis
    using assms(2) v
    by (simp add: resolve_opts_def Let_def dict_get_def opts_lookup update_conv'
        split: option.splits)
qed

lemma resolve_opts_empty_name: "resolve_opts w [('''', v)] = resolve_opts w []"
  by (simp add: resolve_opts_def NATIVE_AUTH_DEFAULTS_def)

text \<open>
  Claim C5. The check of the option names is \<^verbatim>\<open>any(unaccepted)\<close>, which asks whether some unaccepted name is a non-empty string. For the call \<^verbatim>\<open>native_auth(**{"": v})\<close> the list of unaccepted names is \<^verbatim>\<open>[""]\<close>, no \<^verbatim>\<open>ValueError\<close> is raised, and the call behaves as the call without arguments does: it begins by loading the tokens of the default section.
\<close>

theorem empty_option_name_accepted:
  "unaccepted w [('''', v)] = [''''] \<and>
   native_auth w c [('''', v)] now_load now_clear = native_auth w c [] now_load now_clear \<and>
   (\<exists>evs. snd (snd (native_auth w c [('''', v)] now_load now_clear)) =
      LoadTokens (PStr ''0af96eea-fec8-4d6e-aad2-c87feed8151c'') (DEFAULT_REQUESTED_SCOPES w)
        (PBool True) # evs)"
proof -
  have u: "unaccepted w [('''', v)] = ['''']"
    by (simp add: unaccepted_def defaults_keys) (simp add: dict_keys_def)
  have u0: "unaccepted w [] = []" by (simp add: unaccepted_def dict_keys_def)
  have eq: "native_auth w c [('''', v)] now_load now_clear = native_auth w c [] now_load now_clear"
    by (simp add: native_auth_def u u0 py_any_str_def resolve_opts_empty_name)
  have k: "''force_login'' \<in> set (dict_keys (NATIVE_AUTH_DEFAULTS w))"
    "''requested_scopes'' \<in> set (dict_keys (NATIVE_AUTH_DEFAULTS w))"
    "''check_tokens_expired'' \<in> set (dict_keys (NATIVE_AUTH_DEFAULTS w))"
    "''config_section'' \<in> set (dict_keys (NATIVE_AUTH_DEFAULTS w))"
    "''client_id'' \<in> set (dict_keys (NATIVE_AUTH_DEFAULTS w))"
    by (simp_all add: defaults_keys)
  have o: "dict_get (resolve_opts w []) ''force_login'' = PBool False"
    "dict_get (resolve_opts w []) ''requested_scopes'' = DEFAULT_REQUESTED_SCOPES w"
    "dict_get (resolve_opts w []) ''check_tokens_expired'' = PBool True"
    "dict_get (resolve_opts w []) ''config_section'' = PNone"
    "dict_get (resolve_opts w []) ''client_id'' = PStr ''0af96eea-fec8-4d6e-aad2-c87feed8151c''"
    by (simp_all add: resolve_opts_get k) (simp_all add: NATIVE_AUTH_DEFAULTS_def dict_get_def)
  have "\<exists>evs. snd (snd (native_auth w c [] now_load now_clear)) =
      LoadTokens (PStr ''0af96eea-fec8-4d6e-aad2-c87feed8151c'') (DEFAULT_REQUESTED_SCOPES w)
        (PBool True) # evs"
    by (simp add: native_auth_def u0 py_any_str_def Let_def o config_section_of_def is_False_def
        split: sum.splits prod.splits)
  with u eq show ?thesis by simp
qed

lemma revoke_all_events:
  "e \<in> set (snd (revoke_all w ts)) \<Longrightarrow> \<exists>tok. e = Oauth2RevokeToken tok"
  by (induction ts arbitrary: e) (auto split: option.splits prod.splits)

lemma clear_tokens_events:
  assumes "e \<in> set (snd (snd (clear_tokens w c section client_id now)))"
  shows "e = NativeAppAuthClient client_id \<or> (\<exists>tok. e = Oauth2RevokeToken tok)"
proof (cases "load_tokens c section (PList []) (PBool True) now")
  case (Inl err)
  with assms show ?thesis
    by (auto simp: clear_tokens_def split: sum.splits prod.splits if_splits)
next
  case (Inr toks)
  obtain r evs where r: "revoke_all w (dict_values toks) = (r, evs)" by (cases "revoke_all w (dict_values toks)")
  from assms Inr r have "e = NativeAppAuthClient client_id \<or> e \<in> set evs"
    by (auto simp: clear_tokens_def split: sum.splits prod.splits if_splits option.splits)
  moreover have "e \<in> set evs \<Longrightarrow> \<exists>tok. e = Oauth2RevokeToken tok"
    using revoke_all_events [of e w "dict_values toks"] r by simp
  ultimately show ?thesis by blast
qed

lemma prompt_login_events:
  "e \<in> set (prompt_login w url nb) \<Longrightarrow> (\<exists>u. e = WebbrowserOpen u) \<or> (\<exists>t. e = SafePrint t)"
  by (auto simp: prompt_login_def split: if_splits)

lemma login_flow_start_flow:
  assumes "Oauth2StartFlow a b x d \<in> set (snd (snd (login_flow w c opts sec now)))"
  shows "b = dict_get opts ''redirect_uri''"
proof -
  obtain r c1 evs where cl: "clear_tokens w c sec (dict_get opts ''client_id'') now = (r, c1, evs)"
    by (cases "clear_tokens w c sec (dict_get opts ''client_id'') now") auto
  have nc: "Oauth2StartFlow a b x d \<notin> set evs"
    using clear_tokens_events [of "Oauth2StartFlow a b x d" w c sec "dict_get opts ''client_id''" now] cl
    by auto
  have np: "Oauth2StartFlow a b x d \<notin> set (prompt_login w url nb)" for url nb
    using prompt_login_events [of "Oauth2StartFlow a b x d" w url nb] by auto
  from assms cl nc np show ?thesis
    by (auto simp: login_flow_def Let_def split: sum.splits prod.splits if_splits)
qed

lemma native_auth_start_flow:
  assumes "Oauth2StartFlow a b x d \<in> set (snd (snd (native_auth w c kwargs now_load now_clear)))"
  shows "b = dict_get (resolve_opts w kwargs) ''redirect_uri''"
proof -
  let ?opts = "resolve_opts w kwargs"
  from assms have "Oauth2StartFlow a b x d \<in>
      set (snd (snd (login_flow w c ?opts (config_section_of ?opts) now_clear)))"
    by (auto simp: native_auth_def Let_def split: sum.splits prod.splits if_splits)
  then show ?thesis by (rule login_flow_start_flow)
qed

lemma resolve_opts_redirect:
  "dict_get (resolve_opts w kwargs) ''redirect_uri'' =
     (let u = (case map_of kwargs ''redirect_uri'' of
                 None \<Rightarrow> PStr ''http://localhost:8890/'' | Some x \<Rightarrow> x);
          n = (case map_of kwargs ''no_local_server'' of None \<Rightarrow> PBool False | Some x \<Rightarrow> x)
      in if n = PBool True \<and> u = PStr ''http://localhost:8890/''
         then PStr AUTH_CODE_REDIRECT else u)"
proof -
  have d: "map_of (NATIVE_AUTH_DEFAULTS w) ''redirect_uri'' = Some (PStr ''http://localhost:8890/'')"
    "map_of (NATIVE_AUTH_DEFAULTS w) ''no_local_server'' = Some (PBool False)"
    by (simp_all add: NATIVE_AUTH_DEFAULTS_def)
  show ?thesis
    by (simp add: resolve_opts_def Let_def dict_get_def opts_lookup d update_conv' is_True_def
        split: option.splits)
qed

text \<open>
  Claim C10. When \<^verbatim>\<open>no_local_server\<close> is \<^verbatim>\<open>True\<close> and the caller gave no redirect target, or gave the default one, the resolved redirect target is the page that displays the code; a redirect target of the caller's own that is not the default is left as it is; and every authorization flow that \<^verbatim>\<open>native_auth\<close> starts is started with the resolved redirect target.
\<close>

theorem no_local_server_redirect:
  "(map_of kwargs ''no_local_server'' = Some (PBool True) \<and>
    (map_of kwargs ''redirect_uri'' = None \<or>
     map_of kwargs ''redirect_uri'' = Some (PStr ''http://localhost:8890/'')) \<longrightarrow>
    dict_get (resolve_opts w kwargs) ''redirect_uri'' = PStr AUTH_CODE_REDIRECT) \<and>
   (\<forall>u. map_of kwargs ''redirect_uri'' = Some u \<and> u \<noteq> PStr ''http://localhost:8890/'' \<longrightarrow>
      dict_get (resolve_opts w kwargs) ''redirect_uri'' = u) \<and>
   (\<forall>scopes uri refresh label.
      Oauth2StartFlow scopes uri refresh label
        \<in> set (snd (snd (native_auth w c kwargs now_load now_clear))) \<longrightarrow>
      uri = dict_get (resolve_opts w kwargs) ''redirect_uri'')"
  using native_auth_start_flow [of _ _ _ _ w c kwargs now_load now_clear]
  by (auto simp: resolve_opts_redirect Let_def)

text \<open>
  Claim C6. For a call whose option names are all known and whose \<^verbatim>\<open>force_login\<close> is absent or \<^verbatim>\<open>False\<close>: when \<^verbatim>\<open>load_tokens\<close> for the resolved section, scopes and expiry flag succeeds, \<^verbatim>\<open>native_auth\<close> returns exactly the loaded tokens, leaves the configuration as it was, and its trace is the one call of \<^verbatim>\<open>load_tokens\<close>: nothing is cleared, no flow is started, no server or browser is used, no code is exchanged and nothing is saved.
\<close>

theorem stored_tokens_returned:
  assumes "set (dict_keys kwargs) \<subseteq> set (dict_keys (NATIVE_AUTH_DEFAULTS w))"
    and "map_of kwargs ''force_login'' = None \<or> map_of kwargs ''force_login'' = Some (PBool False)"
    and "load_tokens c (config_section_of (resolve_opts w kwargs))
           (dict_get (resolve_opts w kwargs) ''requested_scopes'')
           (dict_get (resolve_opts w kwargs) ''check_tokens_expired'') now_load = Inr toks"
  shows "native_auth w c kwargs now_load now_clear =
           (Inr toks, c,
            [LoadTokens (config_section_of (resolve_opts w kwargs))
               (dict_get (resolve_opts w kwargs) ''requested_scopes'')
               (dict_get (resolve_opts w kwargs) ''check_tokens_expired'')])"
proof -
  from assms(1) have u: "unaccepted w kwargs = []"
    by (auto simp: unaccepted_def filter_empty_conv)
  have k: "''force_login'' \<in> set (dict_keys (NATIVE_AUTH_DEFAULTS w))"
    by (simp add: defaults_keys)
  have f: "dict_get (resolve_opts w kwargs) ''force_login'' = PBool False"
    using assms(2) by (auto simp: resolve_opts_get k) (simp_all add: NATIVE_AUTH_DEFAULTS_def dict_get_def)
  show ?thesis
    by (simp add: native_auth_def u py_any_str_def Let_def f is_False_def assms(3))
qed

lemma load_empty_config: "load_tokens empty_config sec requested check now = Inl ConfigError"
  by (simp add: load_tokens_def get_section_def empty_config_def deserialize_token_groups_def
      split: pyval.splits)

lemma clear_empty_config:
  "clear_tokens w empty_config sec client_id now = (Inr False, empty_config, [NativeAppAuthClient client_id])"
  by (simp add: clear_tokens_def load_empty_config is_ConfigError_def)

lemma native_auth_defaults_example:
  "native_auth test_world empty_config [] 0 0 =
     (Inr mock_tokens, empty_config,
      [LoadTokens (PStr ''0af96eea-fec8-4d6e-aad2-c87feed8151c'')
         (PList [PStr ''openid'', PStr ''profile'', PStr ''email'',
                 PStr ''urn:globus:auth:scope:transfer.api.globus.org:all''])
         (PBool True),
       ClearTokens (PStr ''0af96eea-fec8-4d6e-aad2-c87feed8151c'')
         (PStr ''0af96eea-fec8-4d6e-aad2-c87feed8151c''),
       NativeAppAuthClient (PStr ''0af96eea-fec8-4d6e-aad2-c87feed8151c''),
       NativeAppAuthClient (PStr ''0af96eea-fec8-4d6e-aad2-c87feed8151c''),
       Oauth2StartFlow
         (PList [PStr ''openid'', PStr ''profile'', PStr ''email'',
                 PStr ''urn:globus:auth:scope:transfer.api.globus.org:all''])
         (PStr ''http://localhost:8890/'') (PBool False) (PStr ''localhost''),
       Oauth2GetAuthorizeUrl (PDict []),
       StartLocalServer (PStr ''127.0.0.1'') (PInt 8890),
       WebbrowserOpen ''https://auth.globus.org/v2/oauth2/authorize'',
       WaitForCode, StopLocalServer,
       Oauth2ExchangeCodeForTokens ''code''])"
  by (simp add: native_auth_def unaccepted_def dict_keys_def py_any_str_def resolve_opts_def
      NATIVE_AUTH_DEFAULTS_def dict_get_def is_True_def is_False_def config_section_of_def
      load_empty_config is_ConfigError_def login_flow_def clear_empty_config test_world_def
      prompt_login_def Let_def)

text \<open>
  Claim C5 at a concrete world and an empty configuration: the call with the unknown option loads, clears, starts the flow, opens the browser and exchanges the code.
\<close>

theorem empty_option_name_accepted_witness:
  "native_auth test_world empty_config [('''', PBool True)] 0 0 =
     (Inr mock_tokens, empty_config,
      [LoadTokens (PStr ''0af96eea-fec8-4d6e-aad2-c87feed8151c'')
         (PList [PStr ''openid'', PStr ''profile'', PStr ''email'',
                 PStr ''urn:globus:auth:scope:transfer.api.globus.org:all''])
         (PBool True),
       ClearTokens (PStr ''0af96eea-fec8-4d6e-aad2-c87feed8151c'')
         (PStr ''0af96eea-fec8-4d6e-aad2-c87feed8151c''),
       NativeAppAuthClient (PStr ''0af96eea-fec8-4d6e-aad2-c87feed8151c''),
       NativeAppAuthClient (PStr ''0af96eea-fec8-4d6e-aad2-c87feed8151c''),
       Oauth2StartFlow
         (PList [PStr ''openid'', PStr ''profile'', PStr ''email'',
                 PStr ''urn:globus:auth:scope:transfer.api.globus.org:all''])
         (PStr ''http://localhost:8890/'') (PBool False) (PStr ''localhost''),
       Oauth2GetAuthorizeUrl (PDict []),
       StartLocalServer (PStr ''127.0.0.1'') (PInt 8890),
       WebbrowserOpen ''https://auth.globus.org/v2/oauth2/authorize'',
       WaitForCode, StopLocalServer,
       Oauth2ExchangeCodeForTokens ''code''])"
  using empty_option_name_accepted [of test_world "PBool True" empty_config 0 0]
  by (simp add: native_auth_defaults_example)

lemma native_auth_paste_example:
  "snd (snd (native_auth test_world empty_config paste_kwargs 0 0)) =
      [ClearTokens (PStr ''0af96eea-fec8-4d6e-aad2-c87feed8151c'')
         (PStr ''0af96eea-fec8-4d6e-aad2-c87feed8151c''),
       NativeAppAuthClient (PStr ''0af96eea-fec8-4d6e-aad2-c87feed8151c''),
       NativeAppAuthClient (PStr ''0af96eea-fec8-4d6e-aad2-c87feed8151c''),
       Oauth2StartFlow
         (PList [PStr ''openid'', PStr ''profile'', PStr ''email'',
                 PStr ''urn:globus:auth:scope:transfer.api.globus.org:all''])
         (PStr ''https://auth.globus.org/v2/web/auth-code'') (PBool False) (PStr ''localhost''),
       Oauth2GetAuthorizeUrl (PDict []),
       WebbrowserOpen ''https://auth.globus.org/v2/oauth2/authorize'',
       SafePrint ''Enter the resulting Authorization Code here: '',
       ReadInput,
       Oauth2ExchangeCodeForTokens ''code'']"
  by (simp add: native_auth_def unaccepted_def dict_keys_def py_any_str_def resolve_opts_def
      NATIVE_AUTH_DEFAULTS_def dict_get_def is_True_def is_False_def config_section_of_def
      load_empty_config is_ConfigError_def login_flow_def clear_empty_config test_world_def
      prompt_login_def Let_def paste_kwargs_def AUTH_CODE_REDIRECT_def)

text \<open>
  Claim C10 at two concrete calls: without the local server the flow is started with the page that displays the code, and a redirect target of the caller's own is kept.
\<close>

theorem no_local_server_redirect_witness:
  "map_of paste_kwargs ''no_local_server'' = Some (PBool True) \<and>
   map_of paste_kwargs ''redirect_uri'' = None \<and>
   dict_get (resolve_opts test_world paste_kwargs) ''redirect_uri''
     = PStr ''https://auth.globus.org/v2/web/auth-code'' \<and>
   Oauth2StartFlow
     (PList [PStr ''openid'', PStr ''profile'', PStr ''email'',
             PStr ''urn:globus:auth:scope:transfer.api.globus.org:all''])
     (PStr ''https://auth.globus.org/v2/web/auth-code'') (PBool False) (PStr ''localhost'')
     \<in> set (snd (snd (native_auth test_world empty_config paste_kwargs 0 0))) \<and>
   map_of own_redirect_kwargs ''redirect_uri'' = Some (PStr ''https://example.org/code'') \<and>
   dict_get (resolve_opts test_world own_redirect_kwargs) ''redirect_uri''
     = PStr ''https://example.org/code''"
proof -
  have a: "map_of paste_kwargs ''no_local_server'' = Some (PBool True)"
    and b: "map_of paste_kwargs ''redirect_uri'' = None"
    and d: "map_of own_redirect_kwargs ''redirect_uri'' = Some (PStr ''https://example.org/code'')"
    by (simp_all add: paste_kwargs_def own_redirect_kwargs_def)
  from no_local_server_redirect [of paste_kwargs test_world empty_config 0 0] a b
  have 1: "dict_get (resolve_opts test_world paste_kwargs) ''redirect_uri''
     = PStr ''https://auth.globus.org/v2/web/auth-code''"
    by (simp add: AUTH_CODE_REDIRECT_def)
  from no_local_server_redirect [of own_redirect_kwargs test_world empty_config 0 0] d
  have 2: "dict_get (resolve_opts test_world own_redirect_kwargs) ''redirect_uri''
     = PStr ''https://example.org/code''"
    by simp
  show ?thesis using a b d 1 2 by (simp add: native_auth_paste_example)
qed

lemma load_scoped:
  "load_tokens scoped_config (PStr ''test'') (PList [PStr ''A'', PStr ''B'']) (PBool True) 0
     = Inr scoped_tokens"
proof -
  have n: "[''A'', ''B''] \<noteq> []" by simp
  have e: "\<not> (\<exists>t\<in>set (dict_values scoped_tokens). of_int (expires_at t) \<le> (0 :: real))"
    by (simp add: scoped_tokens_def dict_values_def expires_at_def dict_get_def)
  show ?thesis
    using scope_check_stored [OF stored_scoped n] expiry_check_stored [OF stored_scoped, of 0] e
    by (simp add: load_tokens_stored [OF stored_scoped] loaded_scopes_scoped)
qed

lemma stored_kwargs_opts:
  "config_section_of (resolve_opts w stored_kwargs) = PStr ''test''"
  "dict_get (resolve_opts w stored_kwargs) ''requested_scopes'' = PList [PStr ''A'', PStr ''B'']"
  "dict_get (resolve_opts w stored_kwargs) ''check_tokens_expired'' = PBool True"
  by (simp_all add: config_section_of_def resolve_opts_get defaults_keys stored_kwargs_def)
     (simp_all add: NATIVE_AUTH_DEFAULTS_def dict_get_def)

text \<open>
  Claim C6 at a section that holds one record with the scopes A and B, requested with both scopes before the record expires.
\<close>

theorem stored_tokens_returned_witness:
  "set (dict_keys stored_kwargs) \<subseteq> set (dict_keys (NATIVE_AUTH_DEFAULTS test_world)) \<and>
   map_of stored_kwargs ''force_login'' = None \<and>
   load_tokens scoped_config (PStr ''test'') (PList [PStr ''A'', PStr ''B'']) (PBool True) 0
     = Inr scoped_tokens \<and>
   native_auth test_world scoped_config stored_kwargs 0 0 =
     (Inr scoped_tokens, scoped_config,
      [LoadTokens (PStr ''test'') (PList [PStr ''A'', PStr ''B'']) (PBool True)])"
proof -
  have k: "set (dict_keys stored_kwargs) \<subseteq> set (dict_keys (NATIVE_AUTH_DEFAULTS test_world))"
    by (simp add: defaults_keys) (simp add: stored_kwargs_def dict_keys_def)
  have f: "map_of stored_kwargs ''force_login'' = None" by (simp add: stored_kwargs_def)
  have l: "load_tokens scoped_config (config_section_of (resolve_opts test_world stored_kwargs))
           (dict_get (resolve_opts test_world stored_kwargs) ''requested_scopes'')
           (dict_get (resolve_opts test_world stored_kwargs) ''check_tokens_expired'') 0
           = Inr scoped_tokens"
    by (simp add: stored_kwargs_opts load_scoped)
  from stored_tokens_returned [OF k disjI1 [OF f] l, of 0]
  show ?thesis using k f load_scoped by (simp add: stored_kwargs_opts)
qed

section \<open>The JSON file adapter: loading and storing\<close>













text \<open>
  Claim C7. Loading a missing file gives the skeleton with the current format version \<^verbatim>\<open>1.0\<close> and an empty \<^verbatim>\<open>by_rs\<close>; loading a document whose format version is not supported, or whose \<^verbatim>\<open>by_rs\<close> entry is missing or is not a dictionary, raises \<^verbatim>\<open>ValueError\<close>.
\<close>

theorem load_missing_or_invalid:
  "(\<exists>doc. adapter_load version None = Inr doc \<and>
      doc = [(''by_rs'', PDict []), (''format_version'', PStr ''1.0''),
             (''globus-sdk.version'', PStr version)] \<and>
      dict_get doc ''format_version'' = PStr format_version \<and>
      dict_get doc ''by_rs'' = PDict []) \<and>
   (\<forall>fl d. content fl = Json (PDict d) \<and>
      dict_get d ''format_version'' \<notin> PStr ` set supported_versions \<longrightarrow>
      adapter_load version (Some fl) = Inl ValueError) \<and>
   (\<forall>fl d. content fl = Json (PDict d) \<and>
      (map_of d ''by_rs'' = None \<or> \<not> is_dict (dict_get d ''by_rs'')) \<longrightarrow>
      adapter_load version (Some fl) = Inl ValueError)"
proof -
  have a: "\<exists>doc. adapter_load version None = Inr doc \<and>
      doc = [(''by_rs'', PDict []), (''format_version'', PStr ''1.0''),
             (''globus-sdk.version'', PStr version)] \<and>
      dict_get doc ''format_version'' = PStr format_version \<and>
      dict_get doc ''by_rs'' = PDict []"
    by (simp add: adapter_load_def raw_load_def format_version_def dict_get_def)
  have b: "adapter_load version (Some fl) = Inl ValueError"
    if "content fl = Json (PDict d)"
      and "dict_get d ''format_version'' \<notin> PStr ` set supported_versions" for fl d
    using that by (simp add: adapter_load_def raw_load_def handle_formats_def)
  have c: "adapter_load version (Some fl) = Inl ValueError"
    if "content fl = Json (PDict d)"
      and "map_of d ''by_rs'' = None \<or> \<not> is_dict (dict_get d ''by_rs'')" for fl d
    using that by (auto simp: adapter_load_def raw_load_def handle_formats_def is_dict_def dict_get_def)
  from a b c show ?thesis by blast
qed

text \<open>
  Claim C7 at a missing file and at the three refused files.
\<close>

theorem load_missing_or_invalid_witness:
  "adapter_load ''3.0.0'' None =
     Inr [(''by_rs'', PDict []), (''format_version'', PStr ''1.0''),
          (''globus-sdk.version'', PStr ''3.0.0'')] \<and>
   content unknown_version_file
     = Json (PDict [(''by_rs'', PDict []), (''format_version'', PStr ''2.0'')]) \<and>
   dict_get [(''by_rs'', PDict []), (''format_version'', PStr ''2.0'')] ''format_version''
     \<notin> PStr ` set supported_versions \<and>
   adapter_load ''3.0.0'' (Some unknown_version_file) = Inl ValueError \<and>
   content no_by_rs_file = Json (PDict [(''format_version'', PStr ''1.0'')]) \<and>
   map_of [(''format_version'', PStr ''1.0'')] ''by_rs'' = None \<and>
   adapter_load ''3.0.0'' (Some no_by_rs_file) = Inl ValueError \<and>
   content list_by_rs_file
     = Json (PDict [(''by_rs'', PList []), (''format_version'', PStr ''1.0'')]) \<and>
   \<not> is_dict (dict_get [(''by_rs'', PList []), (''format_version'', PStr ''1.0'')] ''by_rs'') \<and>
   adapter_load ''3.0.0'' (Some list_by_rs_file) = Inl ValueError"
proof -
  have 1: "content unknown_version_file
     = Json (PDict [(''by_rs'', PDict []), (''format_version'', PStr ''2.0'')])"
    and 2: "dict_get [(''by_rs'', PDict []), (''format_version'', PStr ''2.0'')] ''format_version''
     \<notin> PStr ` set supported_versions"
    and 3: "content no_by_rs_file = Json (PDict [(''format_version'', PStr ''1.0'')])"
    and 4: "map_of [(''format_version'', PStr ''1.0'')] ''by_rs'' = None"
    and 5: "content list_by_rs_file
     = Json (PDict [(''by_rs'', PList []), (''format_version'', PStr ''1.0'')])"
    and 6: "\<not> is_dict (dict_get [(''by_rs'', PList []), (''format_version'', PStr ''1.0'')] ''by_rs'')"
    by (simp_all add: unknown_version_file_def no_by_rs_file_def list_by_rs_file_def dict_get_def
        supported_versions_def is_dict_def)
  note t = load_missing_or_invalid [of "''3.0.0''"]
  from t have a: "adapter_load ''3.0.0'' None =
     Inr [(''by_rs'', PDict []), (''format_version'', PStr ''1.0''),
          (''globus-sdk.version'', PStr ''3.0.0'')]" by blast
  from t 1 2 have b: "adapter_load ''3.0.0'' (Some unknown_version_file) = Inl ValueError" by blast
  from t 3 4 have c: "adapter_load ''3.0.0'' (Some no_by_rs_file) = Inl ValueError" by blast
  from t 5 6 have d: "adapter_load ''3.0.0'' (Some list_by_rs_file) = Inl ValueError" by blast
  from a b c d 1 2 3 4 5 6 show ?thesis by blast
qed

end
